theory Spec2Isabelle
  imports Main
begin

section \<open>JavaScript values\<close>

text \<open>
  Messages, payloads and file descriptors are JavaScript values. Numbers are the integers
  (the type tags, process ids and descriptors the program handles are integers; fractional
  doubles are outside the model).
\<close>

datatype jsval =
    JUndefined
  | JNull
  | JBool bool
  | JNum int
  | JStr string
  | JArr "jsval list"
  | JObj "(string \<times> jsval) list"

datatype error = AssertionError | TypeError

text \<open>The truthiness test of \<^verbatim>\<open>if (v)\<close>.\<close>

fun truthy :: "jsval \<Rightarrow> bool" where
  "truthy JUndefined = False"
| "truthy JNull = False"
| "truthy (JBool b) = b"
| "truthy (JNum n) = (n \<noteq> 0)"
| "truthy (JStr s) = (s \<noteq> [])"
| "truthy (JArr xs) = True"
| "truthy (JObj kvs) = True"

text \<open>The decimal rendering of a non-negative integer, as string conversion gives it.\<close>

definition digit_char :: "nat \<Rightarrow> char" where
  "digit_char d = ''0123456789'' ! d"

fun string_of_nat :: "nat \<Rightarrow> string" where
  "string_of_nat n =
     (if n < 10 then [digit_char n]
      else string_of_nat (n div 10) @ [digit_char (n mod 10)])"

declare string_of_nat.simps [simp del]



text \<open>
  Property access \<^verbatim>\<open>v[i]\<close>: a TypeError on \<^verbatim>\<open>undefined\<close> and
  \<^verbatim>\<open>null\<close>, \<^verbatim>\<open>undefined\<close> for a missing element.
\<close>

fun js_index :: "jsval \<Rightarrow> nat \<Rightarrow> error + jsval" where
  "js_index JUndefined i = Inl TypeError"
| "js_index JNull i = Inl TypeError"
| "js_index (JArr xs) i = Inr (if i < length xs then xs ! i else JUndefined)"
| "js_index (JStr s) i = Inr (if i < length s then JStr [s ! i] else JUndefined)"
| "js_index (JObj kvs) i =
     Inr (case map_of kvs (string_of_nat i) of None \<Rightarrow> JUndefined | Some v \<Rightarrow> v)"
| "js_index (JBool b) i = Inr JUndefined"
| "js_index (JNum n) i = Inr JUndefined"

section \<open>The shared utility module\<close>

text \<open>
  The module \<^verbatim>\<open>webworker-util\<close> (message type tags, \<^verbatim>\<open>isValidMessage\<close>,
  \<^verbatim>\<open>MsgStream\<close>, \<^verbatim>\<open>debug\<close>) is not among the sources. Its constants and its
  validity test are parameters of every function that uses them.
\<close>

record wwutil =
  MSGTYPE_NOOP :: int
  MSGTYPE_HANDSHAKE :: int
  MSGTYPE_ERROR :: int
  MSGTYPE_CLOSE :: int
  MSGTYPE_USER :: int
  isValidMessage :: "jsval \<Rightarrow> bool"

text \<open>
  A sample instance, used only to evaluate the functions at concrete inputs: pairwise
  distinct tags, and a message is valid when it is a two-element array. Every general
  theorem below is stated for an arbitrary instance.
\<close>

definition sample_wwutil :: wwutil where
  "sample_wwutil =
     \<lparr> MSGTYPE_NOOP = 0, MSGTYPE_HANDSHAKE = 1, MSGTYPE_ERROR = 2, MSGTYPE_CLOSE = 3,
       MSGTYPE_USER = 100,
       isValidMessage = (\<lambda>m. case m of JArr xs \<Rightarrow> length xs = 2 | _ \<Rightarrow> False) \<rparr>"

section \<open>The worker controller (WorkerImpl)\<close>

text \<open>The child process object: its \<^verbatim>\<open>pid\<close> field is cleared when the process exits.\<close>

datatype child_process = ChildProcess (cp_pid: "nat option")

text \<open>\<^verbatim>\<open>!cp.pid\<close>: undefined, or the number 0.\<close>

definition falsy_pid :: "nat option \<Rightarrow> bool" where
  "falsy_pid p = (p = None \<or> p = Some 0)"

datatype signal = SIGTERM

text \<open>The events the controller emits: error(payload), message(e), exit(code, signal).
  A message event is \<^verbatim>\<open>{data: d}\<close> with an optional field \<^verbatim>\<open>fd\<close>.\<close>

datatype event =
    ErrorEvent jsval
  | MessageEvent jsval "jsval option"
  | ExitEvent jsval jsval

text \<open>The diagnostics passed to \<^verbatim>\<open>wwutil.debug\<close>, by the text they start with.\<close>

datatype debug_msg =
    ReceivedInvalid jsval
  | ReceivedMessage jsval jsval
  | ReceivedUnexpected jsval
  | Spawned nat string
  | ProcessExited "nat option" string jsval jsval
  | ExitedWithoutHandshaking "nat option"
  | ForciblyTerminating "nat option"

datatype srv_state = SrvCreated | SrvListenCalled | SrvListening | SrvClosed

text \<open>
  The closure variables of \<^verbatim>\<open>WorkerImpl\<close> (\<open>src\<close> to \<open>sockPath\<close>), followed by
  what the controller has done to its surroundings: the state of its server, the calls of
  \<^verbatim>\<open>msgStream.send\<close> in order, the pending timers with their delays, the signals sent
  with \<^verbatim>\<open>cp.kill\<close>, the callbacks queued with \<^verbatim>\<open>process.nextTick\<close> (each emits
  one event), the events emitted so far, and the diagnostics.
\<close>

record worker =
  src :: string
  killTimeoutID :: "nat option"
  pid :: "nat option"
  cp :: "child_process option"
  stream :: "nat option"
  msgStream :: "nat option"
  msgQueue :: "jsval list list"
  sockPath :: string
  srv :: srv_state
  sent :: "(jsval \<times> jsval) list"
  timeouts :: "(nat \<times> int) list"
  nextTimeoutID :: nat
  killed :: "signal list"
  nextTicks :: "event list"
  emitted :: "event list"
  debugLog :: "(nat \<times> debug_msg) list"
  streamDestroyed :: bool

text \<open>The process-wide state of the master: its own process id and the worker counter.\<close>

record master =
  process_pid :: nat
  numWorkersCreated :: nat

definition SOCK_DIR_PATH :: "nat \<Rightarrow> string" where
  "SOCK_DIR_PATH p = ''/tmp/node-webworker-'' @ string_of_nat p"

text \<open>\<^verbatim>\<open>path.join\<close> of a normalised directory and a number: the two, joined by a slash.\<close>

definition path_join :: "string \<Rightarrow> nat \<Rightarrow> string" where
  "path_join d n = d @ ''/'' @ string_of_nat n"

text \<open>The constructor: the initial closure variables, and \<^verbatim>\<open>numWorkersCreated++\<close>.\<close>

definition WorkerImpl :: "string \<Rightarrow> master \<Rightarrow> worker \<times> master" where
  "WorkerImpl s g =
     (\<lparr> src = s, killTimeoutID = None, pid = None, cp = None, stream = None,
        msgStream = None, msgQueue = [],
        sockPath = path_join (SOCK_DIR_PATH (process_pid g)) (numWorkersCreated g),
        srv = SrvCreated, sent = [], timeouts = [], nextTimeoutID = 0, killed = [],
        nextTicks = [], emitted = [], debugLog = [], streamDestroyed = False \<rparr>,
      g\<lparr>numWorkersCreated := numWorkersCreated g + 1\<rparr>)"


subsection \<open>Primitive effects\<close>

definition debug :: "nat \<Rightarrow> debug_msg \<Rightarrow> worker \<Rightarrow> worker" where
  "debug l x w = w\<lparr>debugLog := debugLog w @ [(l, x)]\<rparr>"

definition send :: "jsval \<Rightarrow> jsval \<Rightarrow> worker \<Rightarrow> worker" where
  "send m fd w = w\<lparr>sent := sent w @ [(m, fd)]\<rparr>"

definition nextTick :: "event \<Rightarrow> worker \<Rightarrow> worker" where
  "nextTick e w = w\<lparr>nextTicks := nextTicks w @ [e]\<rparr>"

definition setTimeout :: "int \<Rightarrow> worker \<Rightarrow> nat \<times> worker" where
  "setTimeout delay w =
     (nextTimeoutID w,
      w\<lparr>timeouts := timeouts w @ [(nextTimeoutID w, delay)],
        nextTimeoutID := nextTimeoutID w + 1\<rparr>)"

definition clearTimeout :: "nat \<Rightarrow> worker \<Rightarrow> worker" where
  "clearTimeout t w = w\<lparr>timeouts := filter (\<lambda>p. fst p \<noteq> t) (timeouts w)\<rparr>"

subsection \<open>The connection callback of the server\<close>

text \<open>\<^verbatim>\<open>m.pop()\<close>: the array without its last element, and that element.\<close>

definition pop :: "jsval list \<Rightarrow> jsval list \<times> jsval" where
  "pop m = (butlast m, if m = [] then JUndefined else last m)"

text \<open>The \<^verbatim>\<open>forEach\<close> over the queue.\<close>

fun flush :: "jsval list list \<Rightarrow> worker \<Rightarrow> worker" where
  "flush [] w = w"
| "flush (m # ms) w = flush ms (send (JArr (fst (pop m))) (snd (pop m)) w)"

definition connection :: "nat \<Rightarrow> worker \<Rightarrow> error + worker" where
  "connection s w =
     (if stream w \<noteq> None then Inl AssertionError
      else if msgStream w \<noteq> None then Inl AssertionError
      else Inr ((flush (msgQueue w) (w\<lparr>stream := Some s, msgStream := Some s\<rparr>))
                  \<lparr>msgQueue := []\<rparr>))"

subsection \<open>handleMessage\<close>

definition handleMessage :: "wwutil \<Rightarrow> jsval \<Rightarrow> jsval \<Rightarrow> worker \<Rightarrow> error + worker" where
  "handleMessage ww msg fd w =
     (if \<not> isValidMessage ww msg then Inr (debug 1 (ReceivedInvalid msg) w)
      else case js_index msg 0 of
        Inl e \<Rightarrow> Inl e
      | Inr t \<Rightarrow>
         (case js_index msg 1 of
            Inl e \<Rightarrow> Inl e
          | Inr d \<Rightarrow>
             (let w1 = debug 3 (ReceivedMessage t d) w in
              if t = JNum (MSGTYPE_NOOP ww) then Inr w1
              else if t = JNum (MSGTYPE_ERROR ww) then Inr (nextTick (ErrorEvent d) w1)
              else if t = JNum (MSGTYPE_USER ww) then
                Inr (nextTick (MessageEvent d (if truthy fd then Some fd else None)) w1)
              else Inr (debug 1 (ReceivedUnexpected msg) w1))))"

subsection \<open>postMessageImpl and postMessage\<close>

definition postMessageImpl :: "int \<Rightarrow> jsval \<Rightarrow> jsval \<Rightarrow> worker \<Rightarrow> error + worker" where
  "postMessageImpl msgType msg fd w =
     (if \<not> (length (msgQueue w) = 0 \<or> msgStream w = None) then Inl AssertionError
      else if msgStream w \<noteq> None then Inr (send (JArr [JNum msgType, msg]) fd w)
      else Inr (w\<lparr>msgQueue := msgQueue w @ [[JNum msgType, msg, fd]]\<rparr>))"

definition postMessage :: "wwutil \<Rightarrow> jsval \<Rightarrow> jsval \<Rightarrow> worker \<Rightarrow> error + worker" where
  "postMessage ww msg fd w = postMessageImpl (MSGTYPE_USER ww) msg fd w"

subsection \<open>start, and the callbacks it installs\<close>

definition start :: "worker \<Rightarrow> worker" where
  "start w = w\<lparr>srv := SrvListenCalled\<rparr>"

text \<open>The listening callback; \<open>p\<close> is the process id \<^verbatim>\<open>child_process.spawn\<close> reports.\<close>

definition listening :: "nat \<Rightarrow> worker \<Rightarrow> worker" where
  "listening p w =
     debug 1 (Spawned p (src w))
       (w\<lparr>cp := Some (ChildProcess (Some p)), pid := Some p, srv := SrvListening\<rparr>)"

text \<open>
  What the runtime does to the child process object when the process exits, before it
  calls the exit listener: ``this value gets undefined once the process exits''.
\<close>

definition process_exited :: "worker \<Rightarrow> worker" where
  "process_exited w =
     (case cp w of None \<Rightarrow> w | Some c \<Rightarrow> w\<lparr>cp := Some (ChildProcess None)\<rparr>)"

text \<open>The exit listener of the child process.\<close>

definition cp_exit :: "jsval \<Rightarrow> jsval \<Rightarrow> worker \<Rightarrow> worker" where
  "cp_exit code sig w =
     (let w1 = debug 1 (ProcessExited (pid w) (src w) code sig) w;
          w2 = (case killTimeoutID w1 of Some t \<Rightarrow> clearTimeout t w1 | None \<Rightarrow> w1);
          w3 = (if stream w2 \<noteq> None then w2\<lparr>streamDestroyed := True\<rparr>
                else debug 1 (ExitedWithoutHandshaking (pid w2)) w2);
          w4 = w3\<lparr>srv := SrvClosed\<rparr>
      in nextTick (ExitEvent code sig) w4)"

subsection \<open>terminate\<close>

text \<open>The callback given to \<^verbatim>\<open>setTimeout\<close>.\<close>

definition kill_callback :: "worker \<Rightarrow> error + worker" where
  "kill_callback w =
     (let w1 = w\<lparr>killTimeoutID := None\<rparr> in
      case cp w1 of
        None \<Rightarrow> Inl TypeError
      | Some c \<Rightarrow>
          if falsy_pid (cp_pid c) then Inr w1
          else Inr ((debug 1 (ForciblyTerminating (pid w1)) w1)
                      \<lparr>killed := killed w1 @ [SIGTERM]\<rparr>))"

definition terminate :: "wwutil \<Rightarrow> int option \<Rightarrow> worker \<Rightarrow> error + worker" where
  "terminate ww timeout w =
     (if pid w = None then Inl AssertionError
      else case cp w of
        None \<Rightarrow> Inl TypeError
      | Some c \<Rightarrow>
          if \<not> (cp_pid c = pid w \<or> falsy_pid (cp_pid c)) then Inl AssertionError
          else
            (let timeout' = (case timeout of None \<Rightarrow> 5000 | Some t \<Rightarrow> t) in
             if falsy_pid (cp_pid c) then Inr w
             else if killTimeoutID w \<noteq> None then Inr w
             else case postMessageImpl (MSGTYPE_CLOSE ww) JUndefined JUndefined w of
               Inl e \<Rightarrow> Inl e
             | Inr w1 \<Rightarrow>
                 if timeout' > 0 then
                   Inr ((snd (setTimeout timeout' w1))
                          \<lparr>killTimeoutID := Some (fst (setTimeout timeout' w1))\<rparr>)
                 else Inr w1))"

subsection \<open>The event loop\<close>

text \<open>One scheduler turn: the queued \<^verbatim>\<open>nextTick\<close> callbacks run, in order.\<close>

definition tick :: "worker \<Rightarrow> worker" where
  "tick w = w\<lparr>emitted := emitted w @ nextTicks w, nextTicks := []\<rparr>"

text \<open>
  What can happen to a controller: the calls of its public functions and the callbacks
  the runtime invokes.
\<close>

datatype action =
    Start
  | Listening nat
  | Connection nat
  | Msg jsval jsval
  | PostMessage jsval jsval
  | Terminate "int option"
  | Timeout nat
  | Exit jsval jsval
  | Tick

text \<open>
  When the runtime can produce a callback: the server reports listening once, after
  \<^verbatim>\<open>listen\<close>, and the spawned process has a positive id; connections arrive at a
  listening server; messages arrive on a live channel; a timer fires while it is pending; a
  running process exits once.
\<close>

fun enabled :: "action \<Rightarrow> worker \<Rightarrow> bool" where
  "enabled Start w = (srv w = SrvCreated)"
| "enabled (Listening p) w = (srv w = SrvListenCalled \<and> 0 < p)"
| "enabled (Connection s) w = (srv w = SrvListening)"
| "enabled (Msg m fd) w = (msgStream w \<noteq> None \<and> \<not> streamDestroyed w)"
| "enabled (PostMessage m fd) w = True"
| "enabled (Terminate t) w = True"
| "enabled (Timeout t) w = (t \<in> fst ` set (timeouts w))"
| "enabled (Exit code sig) w =
     (case cp w of None \<Rightarrow> False | Some c \<Rightarrow> cp_pid c \<noteq> None)"
| "enabled Tick w = True"

text \<open>
  One action. A timer that fires is no longer pending when its callback runs; the exit
  listener runs on the state the exited process leaves.
\<close>

fun step :: "wwutil \<Rightarrow> action \<Rightarrow> worker \<Rightarrow> error + worker" where
  "step ww Start w = Inr (start w)"
| "step ww (Listening p) w = Inr (listening p w)"
| "step ww (Connection s) w = connection s w"
| "step ww (Msg m fd) w = handleMessage ww m fd w"
| "step ww (PostMessage m fd) w = postMessage ww m fd w"
| "step ww (Terminate t) w = terminate ww t w"
| "step ww (Timeout t) w = kill_callback (clearTimeout t w)"
| "step ww (Exit code sig) w = Inr (cp_exit code sig (process_exited w))"
| "step ww Tick w = Inr (tick w)"

text \<open>
  A run stops at the first callback that throws, and at an action the runtime could not
  have produced.
\<close>

datatype stop = Threw error | Infeasible

fun run :: "wwutil \<Rightarrow> action list \<Rightarrow> worker \<Rightarrow> stop + worker" where
  "run ww [] w = Inr w"
| "run ww (a # as) w =
     (if \<not> enabled a w then Inl Infeasible
      else case step ww a w of
        Inl e \<Rightarrow> Inl (Threw e)
      | Inr w' \<Rightarrow> run ww as w')"

text \<open>
  The envelope a call \<^verbatim>\<open>postMessage(msg, fd)\<close> puts on the channel, the entry it
  appends to the queue while there is no channel, and what the flush sends for an entry.
\<close>

definition user_envelope :: "wwutil \<Rightarrow> jsval \<times> jsval \<Rightarrow> jsval \<times> jsval" where
  "user_envelope ww p = (JArr [JNum (MSGTYPE_USER ww), fst p], snd p)"

definition queued :: "wwutil \<Rightarrow> jsval \<times> jsval \<Rightarrow> jsval list" where
  "queued ww p = [JNum (MSGTYPE_USER ww), fst p, snd p]"

definition dequeued :: "jsval list \<Rightarrow> jsval \<times> jsval" where
  "dequeued m = (JArr (fst (pop m)), snd (pop m))"

definition post :: "jsval \<times> jsval \<Rightarrow> action" where
  "post p = PostMessage (fst p) (snd p)"

text \<open>The two send paths exclude each other: a non-empty queue means no channel yet.\<close>

definition queue_excludes_channel :: "worker \<Rightarrow> bool" where
  "queue_excludes_channel w = (msgQueue w = [] \<or> msgStream w = None)"

text \<open>Sample inputs for evaluation: a master process, and a worker whose server listens.\<close>

definition sample_master :: master where
  "sample_master = \<lparr> process_pid = 4711, numWorkersCreated = 0 \<rparr>"

definition new_worker :: worker where
  "new_worker = fst (WorkerImpl ''worker.js'' sample_master)"

definition spawned_worker :: worker where
  "spawned_worker = listening 4712 (start new_worker)"

text \<open>What a run leaves behind: the envelopes sent, the pending timers, the signals sent.\<close>

definition observe ::
    "stop + worker \<Rightarrow> stop + ((jsval \<times> jsval) list \<times> (nat \<times> int) list \<times> signal list)" where
  "observe r = map_sum id (\<lambda>w. (sent w, timeouts w, killed w)) r"

text \<open>The envelope that terminate posts.\<close>

definition close_envelope :: "wwutil \<Rightarrow> jsval \<times> jsval" where
  "close_envelope ww = (JArr [JNum (MSGTYPE_CLOSE ww), JUndefined], JUndefined)"

text \<open>The timeout in force: 5000 when the argument is omitted.\<close>

definition effective_timeout :: "int option \<Rightarrow> int" where
  "effective_timeout t = (case t of None \<Rightarrow> 5000 | Some d \<Rightarrow> d)"

text \<open>The assertions at the head of terminate pass.\<close>

definition terminate_asserts :: "worker \<Rightarrow> bool" where
  "terminate_asserts w =
     (case (pid w, cp w) of
        (Some p, Some c) \<Rightarrow> cp_pid c = Some p \<or> falsy_pid (cp_pid c)
      | _ \<Rightarrow> False)"

text \<open>The child process has been spawned and has not exited.\<close>

definition child_running :: "worker \<Rightarrow> bool" where
  "child_running w = (case cp w of None \<Rightarrow> False | Some c \<Rightarrow> \<not> falsy_pid (cp_pid c))"

definition connected_worker :: worker where
  "connected_worker =
     (case connection 1 spawned_worker of Inr w \<Rightarrow> w | Inl e \<Rightarrow> spawned_worker)"

text \<open>An action that is not a terminate call with a timeout other than 0.\<close>

fun zero_timeout :: "action \<Rightarrow> bool" where
  "zero_timeout (Terminate t) = (t = Some 0)"
| "zero_timeout a = True"

text \<open>No timer has ever been armed, and no signal has been sent.\<close>

definition never_armed :: "worker \<Rightarrow> bool" where
  "never_armed w =
     (timeouts w = [] \<and> nextTimeoutID w = 0 \<and> killTimeoutID w = None \<and> killed w = [])"

text \<open>The exit events of a controller: those emitted, and those queued for the next tick.\<close>

fun is_exit :: "event \<Rightarrow> bool" where
  "is_exit (ExitEvent code sig) = True"
| "is_exit e = False"

definition exit_events :: "worker \<Rightarrow> event list" where
  "exit_events w = filter is_exit (emitted w @ nextTicks w)"

text \<open>The exit of the child process has been handled.\<close>

definition exited :: "worker \<Rightarrow> bool" where
  "exited w = (cp w = Some (ChildProcess None) \<and> srv w = SrvClosed)"

text \<open>The accepted connections among the actions of a run.\<close>

fun is_connection :: "action \<Rightarrow> bool" where
  "is_connection (Connection c) = True"
| "is_connection a = False"

section \<open>The child runtime (libexec/worker.js)\<close>

text \<open>
  What the message listener of the child can touch: whether the worker script has set
  \<^verbatim>\<open>workerCtx.onmessage\<close>, the payloads that handler has been called with, the exit
  code once \<^verbatim>\<open>process.exit\<close> has been called, and the lines written with
  \<^verbatim>\<open>sys.debug\<close>. The handler belongs to the worker script, not to the runtime: a
  call of it is recorded with its argument.
\<close>

record child =
  has_onmessage :: bool
  delivered :: "jsval list"
  exit_code :: "int option"
  child_debug :: "debug_msg list"

text \<open>\<^verbatim>\<open>workerCtx.close\<close>.\<close>

definition close :: "child \<Rightarrow> child" where
  "close c = c\<lparr>exit_code := Some 0\<rparr>"

text \<open>The listener for the messages of the master.\<close>

definition child_msg :: "wwutil \<Rightarrow> jsval \<Rightarrow> jsval \<Rightarrow> child \<Rightarrow> error + child" where
  "child_msg ww msg fd c =
     (if \<not> isValidMessage ww msg then
        Inr (c\<lparr>child_debug := child_debug c @ [ReceivedInvalid msg]\<rparr>)
      else case js_index msg 0 of
        Inl e \<Rightarrow> Inl e
      | Inr t \<Rightarrow>
          if t = JNum (MSGTYPE_NOOP ww) then Inr c
          else if t = JNum (MSGTYPE_USER ww) then
            (if has_onmessage c then
               (case js_index msg 1 of
                  Inl e \<Rightarrow> Inl e
                | Inr d \<Rightarrow> Inr (c\<lparr>delivered := delivered c @ [d]\<rparr>))
             else Inr c)
          else Inr (c\<lparr>child_debug := child_debug c @ [ReceivedUnexpected msg]\<rparr>))"

definition sample_child :: child where
  "sample_child = \<lparr> has_onmessage = True, delivered = [], exit_code = None, child_debug = [] \<rparr>"

text \<open>
  Everything posted so far, in order: what has been sent on the channel, followed by what
  the queue holds.
\<close>

definition outbox :: "worker \<Rightarrow> (jsval \<times> jsval) list" where
  "outbox w = sent w @ map dequeued (msgQueue w)"

text \<open>The postMessage calls among the actions of a run, and the USER envelopes.\<close>

fun posted :: "action \<Rightarrow> (jsval \<times> jsval) list" where
  "posted (PostMessage m fd) = [(m, fd)]"
| "posted a = []"

definition is_user_envelope :: "wwutil \<Rightarrow> jsval \<times> jsval \<Rightarrow> bool" where
  "is_user_envelope ww e =
     (case fst e of JArr [JNum t, m] \<Rightarrow> t = MSGTYPE_USER ww | _ \<Rightarrow> False)"

section \<open>Basic facts\<close>

lemma run_append:
  "run ww (as @ bs) w = (case run ww as w of Inl e \<Rightarrow> Inl e | Inr w' \<Rightarrow> run ww bs w')"
  by (induction as arbitrary: w) (auto split: sum.splits)

lemma dequeued_queued: "dequeued (queued ww p) = user_envelope ww p"
  by (simp add: dequeued_def queued_def user_envelope_def pop_def)

lemma flush_eq: "flush q w = w\<lparr>sent := sent w @ map dequeued q\<rparr>"
  by (induction q arbitrary: w) (simp_all add: send_def dequeued_def)

lemma connection_flushes:
  "stream w = None \<Longrightarrow> msgStream w = None \<Longrightarrow>
   connection s w =
     Inr (w\<lparr>stream := Some s, msgStream := Some s, msgQueue := [],
            sent := sent w @ map dequeued (msgQueue w)\<rparr>)"
  by (simp add: connection_def flush_eq)

lemma run_posts_queued:
  "msgStream w = None \<Longrightarrow>
   run ww (map post ps) w = Inr (w\<lparr>msgQueue := msgQueue w @ map (queued ww) ps\<rparr>)"
  by (induction ps arbitrary: w)
     (simp_all add: post_def postMessage_def postMessageImpl_def queued_def)

lemma run_posts_sent:
  "msgStream w \<noteq> None \<Longrightarrow> msgQueue w = [] \<Longrightarrow>
   run ww (map post ps) w = Inr (w\<lparr>sent := sent w @ map (user_envelope ww) ps\<rparr>)"
  by (induction ps arbitrary: w)
     (simp_all add: post_def postMessage_def postMessageImpl_def user_envelope_def send_def)

lemma connected_worker_eq:
  "connected_worker = spawned_worker\<lparr>stream := Some 1, msgStream := Some 1\<rparr>"
  "spawned_worker =
     new_worker\<lparr>cp := Some (ChildProcess (Some 4712)), pid := Some 4712, srv := SrvListening,
       debugLog := [(1, Spawned 4712 ''worker.js'')]\<rparr>"
  by (simp_all add: connected_worker_def connection_def spawned_worker_def new_worker_def
      WorkerImpl_def start_def listening_def debug_def)

lemma new_worker_fields:
  "killTimeoutID new_worker = None" "pid new_worker = None" "cp new_worker = None"
  "stream new_worker = None" "msgStream new_worker = None" "msgQueue new_worker = []"
  "srv new_worker = SrvCreated" "sent new_worker = []" "timeouts new_worker = []"
  "nextTimeoutID new_worker = 0" "killed new_worker = []" "nextTicks new_worker = []"
  "emitted new_worker = []" "debugLog new_worker = []" "streamDestroyed new_worker = False"
  "src new_worker = ''worker.js''"
  by (simp_all add: new_worker_def WorkerImpl_def)

lemma terminate_proceeds:
  assumes "terminate_asserts w" "child_running w" "killTimeoutID w = None"
    "queue_excludes_channel w"
  shows "terminate ww t w =
     Inr (if msgStream w \<noteq> None then
            (if 0 < effective_timeout t then
               w\<lparr>sent := sent w @ [close_envelope ww],
                 timeouts := timeouts w @ [(nextTimeoutID w, effective_timeout t)],
                 nextTimeoutID := nextTimeoutID w + 1,
                 killTimeoutID := Some (nextTimeoutID w)\<rparr>
             else w\<lparr>sent := sent w @ [close_envelope ww]\<rparr>)
          else
            (if 0 < effective_timeout t then
               w\<lparr>msgQueue := msgQueue w @ [[JNum (MSGTYPE_CLOSE ww), JUndefined, JUndefined]],
                 timeouts := timeouts w @ [(nextTimeoutID w, effective_timeout t)],
                 nextTimeoutID := nextTimeoutID w + 1,
                 killTimeoutID := Some (nextTimeoutID w)\<rparr>
             else w\<lparr>msgQueue := msgQueue w @ [[JNum (MSGTYPE_CLOSE ww), JUndefined, JUndefined]]\<rparr>))"
  using assms
  by (auto simp: terminate_asserts_def child_running_def terminate_def Let_def
      queue_excludes_channel_def postMessageImpl_def send_def setTimeout_def
      close_envelope_def effective_timeout_def
      split: option.splits)

lemma queue_excludes_channel_step:
  "queue_excludes_channel w \<Longrightarrow> step ww a w = Inr w' \<Longrightarrow> queue_excludes_channel w'"
  by (cases a)
     (auto simp: queue_excludes_channel_def start_def listening_def debug_def connection_def
        handleMessage_def nextTick_def Let_def postMessage_def postMessageImpl_def send_def
        terminate_def setTimeout_def kill_callback_def clearTimeout_def cp_exit_def
        process_exited_def tick_def
        split: if_splits sum.splits option.splits)

lemma queue_excludes_channel_run:
  "queue_excludes_channel w \<Longrightarrow> run ww as w = Inr w' \<Longrightarrow> queue_excludes_channel w'"
proof (induction as arbitrary: w)
  case Nil
  then show ?case by simp
next
  case (Cons a as)
  from Cons.prems(2) obtain w1 where s: "step ww a w = Inr w1" and r: "run ww as w1 = Inr w'"
    by (auto split: if_splits sum.splits)
  from Cons.prems(1) s have "queue_excludes_channel w1"
    by (rule queue_excludes_channel_step)
  then show ?case using r by (rule Cons.IH)
qed

lemma queue_excludes_channel_new: "queue_excludes_channel (fst (WorkerImpl s g))"
  by (simp add: queue_excludes_channel_def WorkerImpl_def)

section \<open>Queueing before the connection, flushing at the connection\<close>

lemma is_user_envelope_user: "is_user_envelope ww (user_envelope ww p)"
  by (simp add: is_user_envelope_def user_envelope_def)

lemma is_user_envelope_close:
  "MSGTYPE_CLOSE ww \<noteq> MSGTYPE_USER ww \<Longrightarrow> \<not> is_user_envelope ww (close_envelope ww)"
  by (simp add: is_user_envelope_def close_envelope_def)

lemma postMessage_outbox:
  "postMessage ww m fd w = Inr w' \<Longrightarrow> outbox w' = outbox w @ [user_envelope ww (m, fd)]"
  by (auto simp: postMessage_def postMessageImpl_def send_def outbox_def dequeued_def pop_def
      user_envelope_def split: if_splits)

lemma terminate_outbox:
  "terminate ww t w = Inr w' \<Longrightarrow>
   outbox w' = outbox w \<or> outbox w' = outbox w @ [close_envelope ww]"
  by (auto simp: terminate_def Let_def postMessageImpl_def send_def setTimeout_def
      outbox_def dequeued_def pop_def close_envelope_def split: if_splits option.splits)

lemma handleMessage_outbox:
  "handleMessage ww m fd w = Inr w' \<Longrightarrow> outbox w' = outbox w"
  unfolding handleMessage_def Let_def
  by (auto simp: debug_def nextTick_def outbox_def split: if_splits sum.splits)

lemma connection_outbox:
  "connection c w = Inr w' \<Longrightarrow> outbox w' = outbox w \<and> sent w' = outbox w"
  by (auto simp: connection_def flush_eq outbox_def split: if_splits)

lemma step_user_envelopes:
  assumes "MSGTYPE_CLOSE ww \<noteq> MSGTYPE_USER ww" and "step ww a w = Inr w'"
  shows "filter (is_user_envelope ww) (outbox w') =
         filter (is_user_envelope ww) (outbox w) @ map (user_envelope ww) (posted a)"
proof (cases a)
  case (Connection c)
  with assms connection_outbox [of c w w'] show ?thesis by simp
next
  case (Msg m fd)
  with assms handleMessage_outbox [of ww m fd w w'] show ?thesis by simp
next
  case (PostMessage m fd)
  with assms postMessage_outbox [of ww m fd w w'] show ?thesis
    by (simp add: is_user_envelope_user)
next
  case (Terminate t)
  with assms terminate_outbox [of ww t w w'] show ?thesis
    by (auto simp: is_user_envelope_close)
next
  case (Exit code sig)
  with assms show ?thesis
    by (auto simp: cp_exit_def process_exited_def Let_def debug_def clearTimeout_def
        nextTick_def outbox_def split: option.splits)
qed (use assms in \<open>auto simp: start_def listening_def debug_def kill_callback_def Let_def
      clearTimeout_def tick_def outbox_def split: if_splits option.splits\<close>)

lemma run_user_envelopes:
  "MSGTYPE_CLOSE ww \<noteq> MSGTYPE_USER ww \<Longrightarrow> run ww as w = Inr w' \<Longrightarrow>
   filter (is_user_envelope ww) (outbox w') =
   filter (is_user_envelope ww) (outbox w) @ map (user_envelope ww) (concat (map posted as))"
proof (induction as arbitrary: w)
  case Nil
  then show ?case by simp
next
  case (Cons a as)
  from Cons.prems(2) obtain w1 where s: "step ww a w = Inr w1" and r: "run ww as w1 = Inr w'"
    by (auto split: if_splits sum.splits)
  from step_user_envelopes [OF Cons.prems(1) s] Cons.IH [OF Cons.prems(1) r]
  show ?case by simp
qed


text \<open>
  Claim C1. Take a controller that has no channel yet and whose server listens. The calls
  of postMessage made before the connection only extend the queue, in call order, and send
  nothing. Accepting the connection sends the queue from its head to its end (earlier
  entries first, then the entries of these calls in call order) and empties it. The calls
  made afterwards are sent after all of those, in call order, and the queue stays empty.
  More generally, in every run of a controller from its construction, whatever else
  happens between the calls, the USER envelopes sent on the channel, followed by those
  still queued, are the postMessage calls of the run in call order; and once there is a
  channel the queue is empty, so all of them have been sent (the CLOSE envelope of
  terminate is told apart by its tag, which is assumed to differ from the USER tag).
\<close>

theorem queue_then_flush_in_call_order:
  assumes "stream w = None" and "msgStream w = None" and "srv w = SrvListening"
  shows "run ww (map post pre) w =
           Inr (w\<lparr>msgQueue := msgQueue w @ map (queued ww) pre\<rparr>)
       \<and> run ww (map post pre @ [Connection s]) w =
           Inr (w\<lparr>stream := Some s, msgStream := Some s, msgQueue := [],
                  sent := sent w @ map dequeued (msgQueue w) @ map (user_envelope ww) pre\<rparr>)
       \<and> run ww (map post pre @ Connection s # map post later) w =
           Inr (w\<lparr>stream := Some s, msgStream := Some s, msgQueue := [],
                  sent := sent w @ map dequeued (msgQueue w) @ map (user_envelope ww) pre
                            @ map (user_envelope ww) later\<rparr>)
       \<and> (MSGTYPE_CLOSE ww \<noteq> MSGTYPE_USER ww \<longrightarrow>
          run ww as (fst (WorkerImpl f g)) = Inr w' \<longrightarrow>
            filter (is_user_envelope ww) (outbox w') =
              map (user_envelope ww) (concat (map posted as))
            \<and> (msgStream w' \<noteq> None \<longrightarrow> msgQueue w' = [] \<and> outbox w' = sent w'))"
proof -
  let ?w1 = "w\<lparr>msgQueue := msgQueue w @ map (queued ww) pre\<rparr>"
  let ?w2 = "w\<lparr>stream := Some s, msgStream := Some s, msgQueue := [],
               sent := sent w @ map dequeued (msgQueue w) @ map (user_envelope ww) pre\<rparr>"
  have queued: "run ww (map post pre) w = Inr ?w1"
    using assms(2) by (rule run_posts_queued)
  have "connection s ?w1 = Inr ?w2"
    using assms(1,2) by (simp add: connection_flushes dequeued_queued comp_def)
  then have accepted: "run ww [Connection s] ?w1 = Inr ?w2"
    using assms(3) by simp
  have flushed: "run ww (map post pre @ [Connection s]) w = Inr ?w2"
    by (simp only: run_append queued accepted sum.case)
  have direct: "run ww (map post later) ?w2 =
      Inr (?w2\<lparr>sent := sent ?w2 @ map (user_envelope ww) later\<rparr>)"
    by (rule run_posts_sent) simp_all
  have all: "run ww (map post pre @ Connection s # map post later) w =
      Inr (w\<lparr>stream := Some s, msgStream := Some s, msgQueue := [],
             sent := sent w @ map dequeued (msgQueue w) @ map (user_envelope ww) pre
                       @ map (user_envelope ww) later\<rparr>)"
    using run_append [of ww "map post pre @ [Connection s]" "map post later" w] flushed direct
    by simp
  have general: "filter (is_user_envelope ww) (outbox w') =
              map (user_envelope ww) (concat (map posted as))
            \<and> (msgStream w' \<noteq> None \<longrightarrow> msgQueue w' = [] \<and> outbox w' = sent w')"
    if tags: "MSGTYPE_CLOSE ww \<noteq> MSGTYPE_USER ww"
      and r: "run ww as (fst (WorkerImpl f g)) = Inr w'"
  proof -
    have "outbox (fst (WorkerImpl f g)) = []"
      by (simp add: outbox_def WorkerImpl_def)
    with run_user_envelopes [OF tags r]
    have 1: "filter (is_user_envelope ww) (outbox w') =
        map (user_envelope ww) (concat (map posted as))"
      by simp
    have "queue_excludes_channel w'"
      using queue_excludes_channel_new r by (rule queue_excludes_channel_run)
    then have 2: "msgStream w' \<noteq> None \<longrightarrow> msgQueue w' = [] \<and> outbox w' = sent w'"
      by (auto simp: queue_excludes_channel_def outbox_def)
    from 1 2 show ?thesis by simp
  qed
  from queued flushed all general show ?thesis by blast
qed

theorem queue_then_flush_in_call_order_witness:
  "stream spawned_worker = None \<and> msgStream spawned_worker = None
   \<and> srv spawned_worker = SrvListening
   \<and> (\<exists>w'. run sample_wwutil
          (map post [(JStr ''a'', JUndefined), (JStr ''b'', JNum 5)] @
           Connection 1 # map post [(JStr ''c'', JUndefined)]) spawned_worker = Inr w'
        \<and> sent w' = [(JArr [JNum 100, JStr ''a''], JUndefined),
                      (JArr [JNum 100, JStr ''b''], JNum 5),
                      (JArr [JNum 100, JStr ''c''], JUndefined)]
        \<and> msgQueue w' = [] \<and> msgStream w' = Some 1)
   \<and> MSGTYPE_CLOSE sample_wwutil \<noteq> MSGTYPE_USER sample_wwutil
   \<and> (\<exists>w'. run sample_wwutil
          [PostMessage (JStr ''a'') JUndefined, Start, Listening 4712, Terminate (Some 0),
           PostMessage (JStr ''b'') (JNum 5), Connection 1, PostMessage (JStr ''c'') JUndefined]
          new_worker = Inr w'
        \<and> msgStream w' = Some 1
        \<and> sent w' = [(JArr [JNum 100, JStr ''a''], JUndefined),
                      (JArr [JNum 3, JUndefined], JUndefined),
                      (JArr [JNum 100, JStr ''b''], JNum 5),
                      (JArr [JNum 100, JStr ''c''], JUndefined)]
        \<and> filter (is_user_envelope sample_wwutil) (sent w') =
             [(JArr [JNum 100, JStr ''a''], JUndefined),
              (JArr [JNum 100, JStr ''b''], JNum 5),
              (JArr [JNum 100, JStr ''c''], JUndefined)])"
proof -
  have a: "stream spawned_worker = None" "msgStream spawned_worker = None"
    "srv spawned_worker = SrvListening"
    by (simp_all add: connected_worker_eq new_worker_fields)
  have b: "sent spawned_worker = []" "msgQueue spawned_worker = []"
    by (simp_all add: connected_worker_eq new_worker_fields)
  note inst = queue_then_flush_in_call_order [OF a, of sample_wwutil]
  have first: "\<exists>w'. run sample_wwutil
          (map post [(JStr ''a'', JUndefined), (JStr ''b'', JNum 5)] @
           Connection 1 # map post [(JStr ''c'', JUndefined)]) spawned_worker = Inr w'
        \<and> sent w' = [(JArr [JNum 100, JStr ''a''], JUndefined),
                      (JArr [JNum 100, JStr ''b''], JNum 5),
                      (JArr [JNum 100, JStr ''c''], JUndefined)]
        \<and> msgQueue w' = [] \<and> msgStream w' = Some 1"
    using b inst [of "[(JStr ''a'', JUndefined), (JStr ''b'', JNum 5)]" 1
        "[(JStr ''c'', JUndefined)]"]
    by (simp add: user_envelope_def sample_wwutil_def)
  define tr where "tr =
    [PostMessage (JStr ''a'') JUndefined, Start, Listening 4712, Terminate (Some 0),
     PostMessage (JStr ''b'') (JNum 5), Connection 1, PostMessage (JStr ''c'') JUndefined]"
  have tags: "MSGTYPE_CLOSE sample_wwutil \<noteq> MSGTYPE_USER sample_wwutil"
    by (simp add: sample_wwutil_def)
  obtain w' where r: "run sample_wwutil tr new_worker = Inr w'"
    and c: "msgStream w' = Some 1"
    and s: "sent w' = [(JArr [JNum 100, JStr ''a''], JUndefined),
                      (JArr [JNum 3, JUndefined], JUndefined),
                      (JArr [JNum 100, JStr ''b''], JNum 5),
                      (JArr [JNum 100, JStr ''c''], JUndefined)]"
    by (simp add: tr_def new_worker_def WorkerImpl_def sample_wwutil_def postMessage_def
        postMessageImpl_def start_def listening_def debug_def connection_def send_def pop_def
        terminate_def falsy_pid_def Let_def)
  from r have r': "run sample_wwutil tr (fst (WorkerImpl ''worker.js'' sample_master)) = Inr w'"
    by (simp add: new_worker_def)
  have p: "concat (map posted tr) =
      [(JStr ''a'', JUndefined), (JStr ''b'', JNum 5), (JStr ''c'', JUndefined)]"
    by (simp add: tr_def)
  have u: "filter (is_user_envelope sample_wwutil) (outbox w') =
           map (user_envelope sample_wwutil) (concat (map posted tr))"
    and o: "outbox w' = sent w'"
    using inst [of "[]" 1 "[]" tr "''worker.js''" sample_master w'] tags r' c by blast+
  have "filter (is_user_envelope sample_wwutil) (sent w') =
           map (user_envelope sample_wwutil) (concat (map posted tr))"
    using u by (simp only: o)
  then have "filter (is_user_envelope sample_wwutil) (sent w') =
             [(JArr [JNum 100, JStr ''a''], JUndefined),
              (JArr [JNum 100, JStr ''b''], JNum 5),
              (JArr [JNum 100, JStr ''c''], JUndefined)]"
    by (simp only: p) (simp add: user_envelope_def sample_wwutil_def)
  with a first tags r c s show ?thesis
    unfolding tr_def by blast
qed

section \<open>The queue and the channel exclude each other\<close>

text \<open>
  Claim C2, as stated, asks for both directions: a non-empty queue means no channel, and no
  channel means a non-empty queue. The second direction fails in the state the constructor
  builds: there is no channel and the queue is empty.
\<close>

theorem no_channel_with_empty_queue_counterexample:
  "\<not> (msgStream new_worker = None \<longrightarrow> msgQueue new_worker \<noteq> [])"
  by (simp add: new_worker_def WorkerImpl_def)

text \<open>
  Claim C2, amended. In every state a controller reaches, the queue is empty or there is no
  channel (a non-empty queue implies that the channel is undefined; the converse does not
  hold). The constructor establishes this, every call and callback that returns preserves
  it (postMessage, the accepted connection, which leaves the queue empty, terminate, and
  all others), and under it the assertion at the head of postMessageImpl passes.
\<close>

theorem queue_nonempty_implies_no_channel:
  "queue_excludes_channel (fst (WorkerImpl s g))
   \<and> (queue_excludes_channel w \<longrightarrow> step ww a w = Inr w' \<longrightarrow> queue_excludes_channel w')
   \<and> (queue_excludes_channel w \<longrightarrow> step ww (Connection c) w = Inr w' \<longrightarrow> msgQueue w' = [])
   \<and> (run ww as (fst (WorkerImpl s g)) = Inr w' \<longrightarrow>
        (msgQueue w' \<noteq> [] \<longrightarrow> msgStream w' = None)
        \<and> postMessageImpl t m fd w' \<noteq> Inl AssertionError)"
proof -
  have "msgQueue w' \<noteq> [] \<longrightarrow> msgStream w' = None"
    and "postMessageImpl t m fd w' \<noteq> Inl AssertionError"
    if "run ww as (fst (WorkerImpl s g)) = Inr w'"
  proof -
    have "queue_excludes_channel w'"
      using queue_excludes_channel_new that by (rule queue_excludes_channel_run)
    then show "msgQueue w' \<noteq> [] \<longrightarrow> msgStream w' = None"
      and "postMessageImpl t m fd w' \<noteq> Inl AssertionError"
      by (auto simp: queue_excludes_channel_def postMessageImpl_def)
  qed
  moreover have "msgQueue w' = []" if "step ww (Connection c) w = Inr w'"
    using that by (auto simp: connection_def split: if_splits)
  ultimately show ?thesis
    using queue_excludes_channel_new queue_excludes_channel_step by blast
qed

theorem queue_nonempty_implies_no_channel_witness:
  "queue_excludes_channel new_worker
   \<and> (\<exists>w'. run sample_wwutil
          [PostMessage (JStr ''a'') JUndefined, Start, Listening 4712, Connection 1,
           PostMessage (JStr ''b'') JUndefined] new_worker = Inr w'
        \<and> msgQueue w' = [] \<and> msgStream w' = Some 1
        \<and> postMessageImpl 100 JNull JUndefined w' \<noteq> Inl AssertionError)"
proof -
  define tr where "tr = [PostMessage (JStr ''a'') JUndefined, Start, Listening 4712,
    Connection 1, PostMessage (JStr ''b'') JUndefined]"
  obtain w' where r: "run sample_wwutil tr new_worker = Inr w'"
    and q: "msgQueue w' = []" and c: "msgStream w' = Some 1"
    by (simp add: tr_def new_worker_def WorkerImpl_def sample_wwutil_def postMessage_def
        postMessageImpl_def start_def listening_def debug_def connection_def send_def pop_def)
  from r have r': "run sample_wwutil tr (fst (WorkerImpl ''worker.js'' sample_master)) = Inr w'"
    by (simp add: new_worker_def)
  have "queue_excludes_channel new_worker"
    using queue_nonempty_implies_no_channel [of "''worker.js''" sample_master]
    by (simp add: new_worker_def)
  moreover have "postMessageImpl 100 JNull JUndefined w' \<noteq> Inl AssertionError"
    using queue_nonempty_implies_no_channel
      [of "''worker.js''" sample_master _ sample_wwutil _ w' _ tr 100 JNull JUndefined] r'
    by blast
  ultimately show ?thesis using r q c unfolding tr_def by blast
qed

section \<open>Classification of inbound messages\<close>

lemma handleMessage_invalid:
  "\<not> isValidMessage ww msg \<Longrightarrow>
      handleMessage ww msg fd w = Inr (debug 1 (ReceivedInvalid msg) w)"
  by (simp add: handleMessage_def)

lemma handleMessage_valid:
  "isValidMessage ww msg \<Longrightarrow> js_index msg 0 = Inr t \<Longrightarrow> js_index msg 1 = Inr d \<Longrightarrow>
   handleMessage ww msg fd w =
     (if t = JNum (MSGTYPE_NOOP ww) then Inr (debug 3 (ReceivedMessage t d) w)
      else if t = JNum (MSGTYPE_ERROR ww) then
        Inr (nextTick (ErrorEvent d) (debug 3 (ReceivedMessage t d) w))
      else if t = JNum (MSGTYPE_USER ww) then
        Inr (nextTick (MessageEvent d (if truthy fd then Some fd else None))
               (debug 3 (ReceivedMessage t d) w))
      else Inr (debug 1 (ReceivedUnexpected msg) (debug 3 (ReceivedMessage t d) w)))"
  by (simp add: handleMessage_def Let_def)

lemma js_index_error: "js_index msg i = Inl e \<Longrightarrow> e = TypeError \<and> (msg = JUndefined \<or> msg = JNull)"
  by (cases msg) simp_all

lemma handleMessage_throws:
  "handleMessage ww msg fd w = Inl e \<Longrightarrow> e = TypeError \<and> (msg = JUndefined \<or> msg = JNull)"
  unfolding handleMessage_def Let_def
  by (auto split: if_splits sum.splits dest: js_index_error)

lemma handleMessage_fields:
  "handleMessage ww msg fd w = Inr w' \<Longrightarrow>
   emitted w' = emitted w \<and> sent w' = sent w \<and> msgQueue w' = msgQueue w
   \<and> killed w' = killed w \<and> timeouts w' = timeouts w"
  unfolding handleMessage_def Let_def
  by (auto simp: debug_def nextTick_def split: if_splits sum.splits)

lemma handleMessage_invalid_state:
  "\<not> isValidMessage ww msg \<Longrightarrow>
   handleMessage ww msg fd w = Inr (w\<lparr>debugLog := debugLog w @ [(1, ReceivedInvalid msg)]\<rparr>)"
  by (simp add: handleMessage_invalid debug_def)

lemma handleMessage_noop_state:
  "isValidMessage ww msg \<Longrightarrow> js_index msg 0 = Inr t \<Longrightarrow> js_index msg 1 = Inr d \<Longrightarrow>
   t = JNum (MSGTYPE_NOOP ww) \<Longrightarrow>
   handleMessage ww msg fd w = Inr (w\<lparr>debugLog := debugLog w @ [(3, ReceivedMessage t d)]\<rparr>)"
  by (simp add: handleMessage_valid debug_def)

lemma handleMessage_error_state:
  "isValidMessage ww msg \<Longrightarrow> js_index msg 0 = Inr t \<Longrightarrow> js_index msg 1 = Inr d \<Longrightarrow>
   t = JNum (MSGTYPE_ERROR ww) \<Longrightarrow> MSGTYPE_ERROR ww \<noteq> MSGTYPE_NOOP ww \<Longrightarrow>
   handleMessage ww msg fd w =
     Inr (w\<lparr>debugLog := debugLog w @ [(3, ReceivedMessage t d)],
            nextTicks := nextTicks w @ [ErrorEvent d]\<rparr>)"
  by (simp add: handleMessage_valid debug_def nextTick_def)

lemma handleMessage_user_state:
  "isValidMessage ww msg \<Longrightarrow> js_index msg 0 = Inr t \<Longrightarrow> js_index msg 1 = Inr d \<Longrightarrow>
   t = JNum (MSGTYPE_USER ww) \<Longrightarrow> MSGTYPE_USER ww \<noteq> MSGTYPE_NOOP ww \<Longrightarrow>
   MSGTYPE_USER ww \<noteq> MSGTYPE_ERROR ww \<Longrightarrow>
   handleMessage ww msg fd w =
     Inr (w\<lparr>debugLog := debugLog w @ [(3, ReceivedMessage t d)],
            nextTicks := nextTicks w
              @ [MessageEvent d (if truthy fd then Some fd else None)]\<rparr>)"
  by (simp add: handleMessage_valid debug_def nextTick_def)

lemma handleMessage_other_state:
  "isValidMessage ww msg \<Longrightarrow> js_index msg 0 = Inr t \<Longrightarrow> js_index msg 1 = Inr d \<Longrightarrow>
   t \<noteq> JNum (MSGTYPE_NOOP ww) \<Longrightarrow> t \<noteq> JNum (MSGTYPE_ERROR ww) \<Longrightarrow>
   t \<noteq> JNum (MSGTYPE_USER ww) \<Longrightarrow>
   handleMessage ww msg fd w =
     Inr (w\<lparr>debugLog := debugLog w
              @ [(3, ReceivedMessage t d), (1, ReceivedUnexpected msg)]\<rparr>)"
  by (simp add: handleMessage_valid debug_def)

lemma tick_emitted: "emitted (tick w) = emitted w @ nextTicks w" "nextTicks (tick w) = []"
  by (simp_all add: tick_def)


lemma handleMessage_states:
  "(\<not> isValidMessage ww msg \<longrightarrow>
      handleMessage ww msg fd w =
        Inr (w\<lparr>debugLog := debugLog w @ [(1, ReceivedInvalid msg)]\<rparr>))
   \<and> (isValidMessage ww msg \<longrightarrow> js_index msg 0 = Inr t \<longrightarrow> js_index msg 1 = Inr d \<longrightarrow>
       (t = JNum (MSGTYPE_NOOP ww) \<longrightarrow>
          handleMessage ww msg fd w =
            Inr (w\<lparr>debugLog := debugLog w @ [(3, ReceivedMessage t d)]\<rparr>))
     \<and> (t = JNum (MSGTYPE_ERROR ww) \<longrightarrow> MSGTYPE_ERROR ww \<noteq> MSGTYPE_NOOP ww \<longrightarrow>
          handleMessage ww msg fd w =
            Inr (w\<lparr>debugLog := debugLog w @ [(3, ReceivedMessage t d)],
                   nextTicks := nextTicks w @ [ErrorEvent d]\<rparr>))
     \<and> (t = JNum (MSGTYPE_USER ww) \<longrightarrow> MSGTYPE_USER ww \<noteq> MSGTYPE_NOOP ww \<longrightarrow>
        MSGTYPE_USER ww \<noteq> MSGTYPE_ERROR ww \<longrightarrow>
          handleMessage ww msg fd w =
            Inr (w\<lparr>debugLog := debugLog w @ [(3, ReceivedMessage t d)],
                   nextTicks := nextTicks w
                     @ [MessageEvent d (if truthy fd then Some fd else None)]\<rparr>))
     \<and> (t \<noteq> JNum (MSGTYPE_NOOP ww) \<longrightarrow> t \<noteq> JNum (MSGTYPE_ERROR ww) \<longrightarrow>
        t \<noteq> JNum (MSGTYPE_USER ww) \<longrightarrow>
          handleMessage ww msg fd w =
            Inr (w\<lparr>debugLog := debugLog w
                     @ [(3, ReceivedMessage t d), (1, ReceivedUnexpected msg)]\<rparr>)))"
proof (intro conjI impI)
  assume "\<not> isValidMessage ww msg"
  then show "handleMessage ww msg fd w =
        Inr (w\<lparr>debugLog := debugLog w @ [(1, ReceivedInvalid msg)]\<rparr>)"
    by (rule handleMessage_invalid_state)
next
  assume "isValidMessage ww msg" "js_index msg 0 = Inr t" "js_index msg 1 = Inr d"
    "t = JNum (MSGTYPE_NOOP ww)"
  then show "handleMessage ww msg fd w =
            Inr (w\<lparr>debugLog := debugLog w @ [(3, ReceivedMessage t d)]\<rparr>)"
    by (rule handleMessage_noop_state)
next
  assume "isValidMessage ww msg" "js_index msg 0 = Inr t" "js_index msg 1 = Inr d"
    "t = JNum (MSGTYPE_ERROR ww)" "MSGTYPE_ERROR ww \<noteq> MSGTYPE_NOOP ww"
  then show "handleMessage ww msg fd w =
            Inr (w\<lparr>debugLog := debugLog w @ [(3, ReceivedMessage t d)],
                   nextTicks := nextTicks w @ [ErrorEvent d]\<rparr>)"
    by (rule handleMessage_error_state)
next
  assume "isValidMessage ww msg" "js_index msg 0 = Inr t" "js_index msg 1 = Inr d"
    "t = JNum (MSGTYPE_USER ww)" "MSGTYPE_USER ww \<noteq> MSGTYPE_NOOP ww"
    "MSGTYPE_USER ww \<noteq> MSGTYPE_ERROR ww"
  then show "handleMessage ww msg fd w =
            Inr (w\<lparr>debugLog := debugLog w @ [(3, ReceivedMessage t d)],
                   nextTicks := nextTicks w
                     @ [MessageEvent d (if truthy fd then Some fd else None)]\<rparr>)"
    by (rule handleMessage_user_state)
next
  assume "isValidMessage ww msg" "js_index msg 0 = Inr t" "js_index msg 1 = Inr d"
    "t \<noteq> JNum (MSGTYPE_NOOP ww)" "t \<noteq> JNum (MSGTYPE_ERROR ww)"
    "t \<noteq> JNum (MSGTYPE_USER ww)"
  then show "handleMessage ww msg fd w =
            Inr (w\<lparr>debugLog := debugLog w
                     @ [(3, ReceivedMessage t d), (1, ReceivedUnexpected msg)]\<rparr>)"
    by (rule handleMessage_other_state)
qed

lemma handleMessage_result_fields:
  assumes r: "handleMessage ww msg fd w = Inr w'"
  shows "emitted w' = emitted w
        \<and> emitted (tick w') = emitted w @ nextTicks w' \<and> nextTicks (tick w') = []
        \<and> (\<not> isValidMessage ww msg \<longrightarrow>
             nextTicks w' = nextTicks w
             \<and> debugLog w' = debugLog w @ [(1, ReceivedInvalid msg)])
        \<and> (isValidMessage ww msg \<longrightarrow> js_index msg 0 = Inr t \<longrightarrow> js_index msg 1 = Inr d \<longrightarrow>
             (t = JNum (MSGTYPE_NOOP ww) \<longrightarrow>
                nextTicks w' = nextTicks w \<and> emitted (tick w') = emitted w @ nextTicks w
                \<and> debugLog w' = debugLog w @ [(3, ReceivedMessage t d)])
           \<and> (t = JNum (MSGTYPE_ERROR ww) \<longrightarrow> MSGTYPE_ERROR ww \<noteq> MSGTYPE_NOOP ww \<longrightarrow>
                nextTicks w' = nextTicks w @ [ErrorEvent d]
                \<and> emitted (tick w') = emitted w @ nextTicks w @ [ErrorEvent d])
           \<and> (t = JNum (MSGTYPE_USER ww) \<longrightarrow> MSGTYPE_USER ww \<noteq> MSGTYPE_NOOP ww \<longrightarrow>
              MSGTYPE_USER ww \<noteq> MSGTYPE_ERROR ww \<longrightarrow>
                nextTicks w' = nextTicks w
                  @ [MessageEvent d (if truthy fd then Some fd else None)]
                \<and> emitted (tick w') = emitted w @ nextTicks w
                  @ [MessageEvent d (if truthy fd then Some fd else None)])
           \<and> (t \<noteq> JNum (MSGTYPE_NOOP ww) \<longrightarrow> t \<noteq> JNum (MSGTYPE_ERROR ww) \<longrightarrow>
              t \<noteq> JNum (MSGTYPE_USER ww) \<longrightarrow>
                nextTicks w' = nextTicks w \<and> emitted (tick w') = emitted w @ nextTicks w
                \<and> debugLog w' = debugLog w
                     @ [(3, ReceivedMessage t d), (1, ReceivedUnexpected msg)]))"
proof -
  have e: "emitted w' = emitted w"
    using handleMessage_fields [OF r] by simp
  have at: "w' = x" if "handleMessage ww msg fd w = Inr x" for x
    using r that by simp
  have 1: "nextTicks w' = nextTicks w"
      "debugLog w' = debugLog w @ [(1, ReceivedInvalid msg)]"
    if "\<not> isValidMessage ww msg"
    by (simp_all add: at [OF handleMessage_invalid_state [OF that]])
  have 2: "nextTicks w' = nextTicks w" "emitted (tick w') = emitted w @ nextTicks w"
      "debugLog w' = debugLog w @ [(3, ReceivedMessage t d)]"
    if "isValidMessage ww msg" "js_index msg 0 = Inr t" "js_index msg 1 = Inr d"
      "t = JNum (MSGTYPE_NOOP ww)"
    by (simp_all add: at [OF handleMessage_noop_state [OF that]] tick_emitted)
  have 3: "nextTicks w' = nextTicks w @ [ErrorEvent d]"
      "emitted (tick w') = emitted w @ nextTicks w @ [ErrorEvent d]"
    if "isValidMessage ww msg" "js_index msg 0 = Inr t" "js_index msg 1 = Inr d"
      "t = JNum (MSGTYPE_ERROR ww)" "MSGTYPE_ERROR ww \<noteq> MSGTYPE_NOOP ww"
    by (simp_all add: at [OF handleMessage_error_state [OF that]] tick_emitted)
  have 4: "nextTicks w' = nextTicks w
                  @ [MessageEvent d (if truthy fd then Some fd else None)]"
      "emitted (tick w') = emitted w @ nextTicks w
                  @ [MessageEvent d (if truthy fd then Some fd else None)]"
    if "isValidMessage ww msg" "js_index msg 0 = Inr t" "js_index msg 1 = Inr d"
      "t = JNum (MSGTYPE_USER ww)" "MSGTYPE_USER ww \<noteq> MSGTYPE_NOOP ww"
      "MSGTYPE_USER ww \<noteq> MSGTYPE_ERROR ww"
    by (simp_all add: at [OF handleMessage_user_state [OF that]] tick_emitted)
  have 5: "nextTicks w' = nextTicks w" "emitted (tick w') = emitted w @ nextTicks w"
      "debugLog w' = debugLog w
                     @ [(3, ReceivedMessage t d), (1, ReceivedUnexpected msg)]"
    if "isValidMessage ww msg" "js_index msg 0 = Inr t" "js_index msg 1 = Inr d"
      "t \<noteq> JNum (MSGTYPE_NOOP ww)" "t \<noteq> JNum (MSGTYPE_ERROR ww)"
      "t \<noteq> JNum (MSGTYPE_USER ww)"
    by (simp_all add: at [OF handleMessage_other_state [OF that]] tick_emitted)
  show ?thesis
    by (intro conjI impI) (simp_all add: e tick_emitted 1 2 3 4 5)
qed

text \<open>
  Claim C3. What handleMessage does with a received message \<open>msg\<close> and descriptor
  \<open>fd\<close>, where \<open>t\<close> is \<^verbatim>\<open>msg[0]\<close> and \<open>d\<close> is \<^verbatim>\<open>msg[1]\<close>, stated on the
  fields of the controller (the state returned is the state before with exactly the fields
  shown changed):
  \<^item> a message the validity test rejects adds one diagnostic (``Received invalid
    message'') and queues nothing;
  \<^item> a NOOP message is discarded: the trace line is the only diagnostic and nothing is
    queued;
  \<^item> an ERROR message appends one callback to the queue of the next tick, the one that
    emits error(d); after the next turn of the scheduler the events emitted are those
    emitted before, those queued before, and error(d), in this order;
  \<^item> a USER message appends one callback that emits message(e), where \<open>e\<close> has the data
    \<open>d\<close> and, exactly when \<open>fd\<close> is truthy, the field fd; it is emitted on the next
    turn in the same way;
  \<^item> a message of any other type adds the diagnostic ``Received unexpected message''
    and queues nothing.
  In every case nothing is emitted during the call itself, so with nothing queued no event
  is ever produced. The call throws only when the validity test accepts
  \<^verbatim>\<open>undefined\<close> or \<^verbatim>\<open>null\<close>. The tags are parameters, so the ERROR and USER
  cases assume that their tags differ from those tested before them in the switch.
\<close>

theorem handleMessage_classification:
  "(\<not> isValidMessage ww msg \<longrightarrow>
      handleMessage ww msg fd w =
        Inr (w\<lparr>debugLog := debugLog w @ [(1, ReceivedInvalid msg)]\<rparr>))
   \<and> (isValidMessage ww msg \<longrightarrow> js_index msg 0 = Inr t \<longrightarrow> js_index msg 1 = Inr d \<longrightarrow>
       (t = JNum (MSGTYPE_NOOP ww) \<longrightarrow>
          handleMessage ww msg fd w =
            Inr (w\<lparr>debugLog := debugLog w @ [(3, ReceivedMessage t d)]\<rparr>))
     \<and> (t = JNum (MSGTYPE_ERROR ww) \<longrightarrow> MSGTYPE_ERROR ww \<noteq> MSGTYPE_NOOP ww \<longrightarrow>
          handleMessage ww msg fd w =
            Inr (w\<lparr>debugLog := debugLog w @ [(3, ReceivedMessage t d)],
                   nextTicks := nextTicks w @ [ErrorEvent d]\<rparr>))
     \<and> (t = JNum (MSGTYPE_USER ww) \<longrightarrow> MSGTYPE_USER ww \<noteq> MSGTYPE_NOOP ww \<longrightarrow>
        MSGTYPE_USER ww \<noteq> MSGTYPE_ERROR ww \<longrightarrow>
          handleMessage ww msg fd w =
            Inr (w\<lparr>debugLog := debugLog w @ [(3, ReceivedMessage t d)],
                   nextTicks := nextTicks w
                     @ [MessageEvent d (if truthy fd then Some fd else None)]\<rparr>))
     \<and> (t \<noteq> JNum (MSGTYPE_NOOP ww) \<longrightarrow> t \<noteq> JNum (MSGTYPE_ERROR ww) \<longrightarrow>
        t \<noteq> JNum (MSGTYPE_USER ww) \<longrightarrow>
          handleMessage ww msg fd w =
            Inr (w\<lparr>debugLog := debugLog w
                     @ [(3, ReceivedMessage t d), (1, ReceivedUnexpected msg)]\<rparr>)))
   \<and> (handleMessage ww msg fd w = Inr w' \<longrightarrow>
        emitted w' = emitted w
        \<and> emitted (tick w') = emitted w @ nextTicks w' \<and> nextTicks (tick w') = []
        \<and> (\<not> isValidMessage ww msg \<longrightarrow>
             nextTicks w' = nextTicks w
             \<and> debugLog w' = debugLog w @ [(1, ReceivedInvalid msg)])
        \<and> (isValidMessage ww msg \<longrightarrow> js_index msg 0 = Inr t \<longrightarrow> js_index msg 1 = Inr d \<longrightarrow>
             (t = JNum (MSGTYPE_NOOP ww) \<longrightarrow>
                nextTicks w' = nextTicks w \<and> emitted (tick w') = emitted w @ nextTicks w
                \<and> debugLog w' = debugLog w @ [(3, ReceivedMessage t d)])
           \<and> (t = JNum (MSGTYPE_ERROR ww) \<longrightarrow> MSGTYPE_ERROR ww \<noteq> MSGTYPE_NOOP ww \<longrightarrow>
                nextTicks w' = nextTicks w @ [ErrorEvent d]
                \<and> emitted (tick w') = emitted w @ nextTicks w @ [ErrorEvent d])
           \<and> (t = JNum (MSGTYPE_USER ww) \<longrightarrow> MSGTYPE_USER ww \<noteq> MSGTYPE_NOOP ww \<longrightarrow>
              MSGTYPE_USER ww \<noteq> MSGTYPE_ERROR ww \<longrightarrow>
                nextTicks w' = nextTicks w
                  @ [MessageEvent d (if truthy fd then Some fd else None)]
                \<and> emitted (tick w') = emitted w @ nextTicks w
                  @ [MessageEvent d (if truthy fd then Some fd else None)])
           \<and> (t \<noteq> JNum (MSGTYPE_NOOP ww) \<longrightarrow> t \<noteq> JNum (MSGTYPE_ERROR ww) \<longrightarrow>
              t \<noteq> JNum (MSGTYPE_USER ww) \<longrightarrow>
                nextTicks w' = nextTicks w \<and> emitted (tick w') = emitted w @ nextTicks w
                \<and> debugLog w' = debugLog w
                     @ [(3, ReceivedMessage t d), (1, ReceivedUnexpected msg)])))
   \<and> (handleMessage ww msg fd w = Inl e \<longrightarrow> e = TypeError \<and> (msg = JUndefined \<or> msg = JNull))"
  (is "?A \<and> ?B \<and> (?R \<longrightarrow> ?F) \<and> ?T")
proof -
  have ab: "?A \<and> ?B"
    by (rule handleMessage_states)
  have f: "?R \<longrightarrow> ?F"
    by (rule impI) (rule handleMessage_result_fields)
  have t: "?T"
    using handleMessage_throws by blast
  show ?thesis
    by (rule conjI [OF ab [THEN conjunct1] conjI [OF ab [THEN conjunct2] conjI [OF f t]]])
qed


theorem handleMessage_classification_witness:
  "isValidMessage sample_wwutil (JArr [JNum 100, JStr ''hi''])
   \<and> js_index (JArr [JNum 100, JStr ''hi'']) 0 = Inr (JNum 100)
   \<and> js_index (JArr [JNum 100, JStr ''hi'']) 1 = Inr (JStr ''hi'')
   \<and> MSGTYPE_USER sample_wwutil = 100 \<and> MSGTYPE_NOOP sample_wwutil = 0
   \<and> MSGTYPE_ERROR sample_wwutil = 2
   \<and> nextTicks new_worker = [] \<and> emitted new_worker = [] \<and> debugLog new_worker = []
   \<and> (\<exists>w'. handleMessage sample_wwutil (JArr [JNum 100, JStr ''hi'']) (JNum 7) new_worker
              = Inr w'
         \<and> nextTicks w' = [MessageEvent (JStr ''hi'') (Some (JNum 7))]
         \<and> emitted w' = []
         \<and> emitted (tick w') = [MessageEvent (JStr ''hi'') (Some (JNum 7))]
         \<and> debugLog w' = [(3, ReceivedMessage (JNum 100) (JStr ''hi''))])
   \<and> (\<exists>w'. handleMessage sample_wwutil (JArr [JNum 100, JStr ''hi'']) (JNum 0) new_worker
              = Inr w'
         \<and> nextTicks w' = [MessageEvent (JStr ''hi'') None] \<and> emitted w' = [])
   \<and> (\<exists>w'. handleMessage sample_wwutil (JArr [JNum 2, JStr ''oops'']) JUndefined new_worker
              = Inr w'
         \<and> nextTicks w' = [ErrorEvent (JStr ''oops'')]
         \<and> emitted w' = []
         \<and> emitted (tick w') = [ErrorEvent (JStr ''oops'')])
   \<and> (\<exists>w'. handleMessage sample_wwutil (JArr [JNum 0, JNull]) JUndefined new_worker = Inr w'
         \<and> nextTicks w' = [] \<and> emitted (tick w') = []
         \<and> debugLog w' = [(3, ReceivedMessage (JNum 0) JNull)])
   \<and> (\<exists>w'. handleMessage sample_wwutil (JArr [JNum 1, JNum 4713]) JUndefined new_worker
              = Inr w'
         \<and> nextTicks w' = [] \<and> emitted (tick w') = []
         \<and> debugLog w' = [(3, ReceivedMessage (JNum 1) (JNum 4713)),
                           (1, ReceivedUnexpected (JArr [JNum 1, JNum 4713]))])
   \<and> (\<exists>w'. handleMessage sample_wwutil (JStr ''junk'') JUndefined new_worker = Inr w'
         \<and> nextTicks w' = [] \<and> emitted (tick w') = []
         \<and> debugLog w' = [(1, ReceivedInvalid (JStr ''junk''))])"
proof -
  let ?u = sample_wwutil
  have tags: "MSGTYPE_USER ?u = 100" "MSGTYPE_NOOP ?u = 0" "MSGTYPE_ERROR ?u = 2"
    by (simp_all add: sample_wwutil_def)
  have n: "nextTicks new_worker = []" "emitted new_worker = []" "debugLog new_worker = []"
    by (simp_all add: new_worker_fields)
  have v: "isValidMessage ?u (JArr [a, b])" for a b
    by (simp add: sample_wwutil_def)
  have nv: "\<not> isValidMessage ?u (JStr ''junk'')"
    by (simp add: sample_wwutil_def)
  have i: "js_index (JArr [a, b]) 0 = Inr a" "js_index (JArr [a, b]) 1 = Inr b" for a b
    by simp_all
  note valid = handleMessage_classification
    [THEN conjunct2, THEN conjunct1, THEN mp, THEN mp, THEN mp, OF v i]
  have is_user: "JNum 100 = JNum (MSGTYPE_USER ?u)"
    and is_error: "JNum 2 = JNum (MSGTYPE_ERROR ?u)"
    and is_noop: "JNum 0 = JNum (MSGTYPE_NOOP ?u)"
    and distinct_tags: "MSGTYPE_ERROR ?u \<noteq> MSGTYPE_NOOP ?u"
      "MSGTYPE_USER ?u \<noteq> MSGTYPE_NOOP ?u" "MSGTYPE_USER ?u \<noteq> MSGTYPE_ERROR ?u"
    and is_other: "JNum 1 \<noteq> JNum (MSGTYPE_NOOP ?u)" "JNum 1 \<noteq> JNum (MSGTYPE_ERROR ?u)"
      "JNum 1 \<noteq> JNum (MSGTYPE_USER ?u)"
    by (simp_all add: sample_wwutil_def)
  have user_state: "handleMessage ?u (JArr [JNum 100, JStr ''hi'']) fd new_worker =
      Inr (new_worker\<lparr>debugLog := debugLog new_worker
              @ [(3, ReceivedMessage (JNum 100) (JStr ''hi''))],
            nextTicks := nextTicks new_worker
              @ [MessageEvent (JStr ''hi'') (if truthy fd then Some fd else None)]\<rparr>)" for fd
    by (rule valid [THEN conjunct2, THEN conjunct2, THEN conjunct1, THEN mp, THEN mp, THEN mp,
          OF is_user distinct_tags(2) distinct_tags(3)])
  have error_state: "handleMessage ?u (JArr [JNum 2, JStr ''oops'']) JUndefined new_worker =
      Inr (new_worker\<lparr>debugLog := debugLog new_worker
              @ [(3, ReceivedMessage (JNum 2) (JStr ''oops''))],
            nextTicks := nextTicks new_worker @ [ErrorEvent (JStr ''oops'')]\<rparr>)"
    by (rule valid [THEN conjunct2, THEN conjunct1, THEN mp, THEN mp,
          OF is_error distinct_tags(1)])
  have noop_state: "handleMessage ?u (JArr [JNum 0, JNull]) JUndefined new_worker =
      Inr (new_worker\<lparr>debugLog := debugLog new_worker
              @ [(3, ReceivedMessage (JNum 0) JNull)]\<rparr>)"
    by (rule valid [THEN conjunct1, THEN mp, OF is_noop])
  have other_state: "handleMessage ?u (JArr [JNum 1, JNum 4713]) JUndefined new_worker =
      Inr (new_worker\<lparr>debugLog := debugLog new_worker
              @ [(3, ReceivedMessage (JNum 1) (JNum 4713)),
                 (1, ReceivedUnexpected (JArr [JNum 1, JNum 4713]))]\<rparr>)"
    by (rule valid [THEN conjunct2, THEN conjunct2, THEN conjunct2, THEN mp, THEN mp, THEN mp,
          OF is_other])
  have junk_state: "handleMessage ?u (JStr ''junk'') JUndefined new_worker =
      Inr (new_worker\<lparr>debugLog := debugLog new_worker
              @ [(1, ReceivedInvalid (JStr ''junk''))]\<rparr>)"
    by (rule handleMessage_classification [THEN conjunct1, THEN mp, OF nv])
  have user: "\<exists>w'. handleMessage ?u (JArr [JNum 100, JStr ''hi'']) (JNum 7) new_worker
              = Inr w'
         \<and> nextTicks w' = [MessageEvent (JStr ''hi'') (Some (JNum 7))]
         \<and> emitted w' = []
         \<and> emitted (tick w') = [MessageEvent (JStr ''hi'') (Some (JNum 7))]
         \<and> debugLog w' = [(3, ReceivedMessage (JNum 100) (JStr ''hi''))]"
    unfolding user_state by (simp add: n tick_def)
  have user0: "\<exists>w'. handleMessage ?u (JArr [JNum 100, JStr ''hi'']) (JNum 0) new_worker
              = Inr w'
         \<and> nextTicks w' = [MessageEvent (JStr ''hi'') None] \<and> emitted w' = []"
    unfolding user_state by (simp add: n)
  have err: "\<exists>w'. handleMessage ?u (JArr [JNum 2, JStr ''oops'']) JUndefined new_worker
              = Inr w'
         \<and> nextTicks w' = [ErrorEvent (JStr ''oops'')]
         \<and> emitted w' = []
         \<and> emitted (tick w') = [ErrorEvent (JStr ''oops'')]"
    unfolding error_state by (simp add: n tick_def)
  have noop: "\<exists>w'. handleMessage ?u (JArr [JNum 0, JNull]) JUndefined new_worker = Inr w'
         \<and> nextTicks w' = [] \<and> emitted (tick w') = []
         \<and> debugLog w' = [(3, ReceivedMessage (JNum 0) JNull)]"
    unfolding noop_state by (simp add: n tick_def)
  have other: "\<exists>w'. handleMessage ?u (JArr [JNum 1, JNum 4713]) JUndefined new_worker
              = Inr w'
         \<and> nextTicks w' = [] \<and> emitted (tick w') = []
         \<and> debugLog w' = [(3, ReceivedMessage (JNum 1) (JNum 4713)),
                           (1, ReceivedUnexpected (JArr [JNum 1, JNum 4713]))]"
    unfolding other_state by (simp add: n tick_def)
  have junk: "\<exists>w'. handleMessage ?u (JStr ''junk'') JUndefined new_worker = Inr w'
         \<and> nextTicks w' = [] \<and> emitted (tick w') = []
         \<and> debugLog w' = [(1, ReceivedInvalid (JStr ''junk''))]"
    unfolding junk_state by (simp add: n tick_def)
  show ?thesis
    by (intro conjI v i tags n user user0 err noop other junk)
qed

section \<open>Terminating twice\<close>

lemma terminate_noop:
  "terminate_asserts w \<Longrightarrow> killTimeoutID w \<noteq> None \<or> \<not> child_running w \<Longrightarrow>
   terminate ww t w = Inr w"
  by (auto simp: terminate_asserts_def child_running_def terminate_def Let_def
      split: option.splits)

lemma terminate_asserts_kept:
  "terminate ww t w = Inr w' \<Longrightarrow> terminate_asserts w'"
  by (auto simp: terminate_asserts_def terminate_def Let_def postMessageImpl_def send_def
      setTimeout_def split: option.splits if_splits)

lemma terminate_pending_after:
  "terminate ww t w = Inr w' \<Longrightarrow> 0 < effective_timeout t \<Longrightarrow>
   killTimeoutID w' \<noteq> None \<or> \<not> child_running w'"
  by (auto simp: child_running_def terminate_def Let_def postMessageImpl_def send_def
      setTimeout_def effective_timeout_def split: option.splits if_splits)

text \<open>
  Where the guard of terminate holds. Where the assertions of terminate pass, a call is a
  no-op (the state is returned as it was: nothing is sent or queued, no timer is armed, the
  pending timer is untouched) while \<open>killTimeoutID\<close> is set or once the child process
  has exited. Two calls in a row, the first with a positive or omitted timeout on a running
  child with no timer pending, leave exactly what the first alone leaves: one CLOSE
  envelope more (sent, or queued while there is no channel) and one timer more.
\<close>

theorem terminate_noop_while_timer_pending:
  "(terminate_asserts w \<longrightarrow> killTimeoutID w \<noteq> None \<or> \<not> child_running w \<longrightarrow>
      terminate ww t w = Inr w)
   \<and> (terminate ww t w = Inr w1 \<longrightarrow> 0 < effective_timeout t \<longrightarrow>
        terminate ww t' w1 = Inr w1)
   \<and> (terminate_asserts w \<longrightarrow> child_running w \<longrightarrow> killTimeoutID w = None \<longrightarrow>
      queue_excludes_channel w \<longrightarrow> 0 < effective_timeout t \<longrightarrow>
        (\<exists>w2. run ww [Terminate t, Terminate t'] w = Inr w2
           \<and> run ww [Terminate t] w = Inr w2
           \<and> sent w2 @ map dequeued (msgQueue w2) =
               sent w @ map dequeued (msgQueue w) @ [close_envelope ww]
           \<and> timeouts w2 = timeouts w @ [(nextTimeoutID w, effective_timeout t)]
           \<and> killTimeoutID w2 = Some (nextTimeoutID w)))"
proof (intro conjI impI)
  assume "terminate_asserts w" and "killTimeoutID w \<noteq> None \<or> \<not> child_running w"
  then show "terminate ww t w = Inr w" by (rule terminate_noop)
next
  assume a: "terminate ww t w = Inr w1" and b: "0 < effective_timeout t"
  show "terminate ww t' w1 = Inr w1"
    using terminate_asserts_kept [OF a] terminate_pending_after [OF a b]
    by (rule terminate_noop)
next
  assume a: "terminate_asserts w" "child_running w" "killTimeoutID w = None"
    "queue_excludes_channel w" and b: "0 < effective_timeout t"
  obtain w2 where w2: "terminate ww t w = Inr w2"
    using terminate_proceeds [OF a] by blast
  have again: "terminate ww t' w2 = Inr w2"
    using terminate_asserts_kept [OF w2] terminate_pending_after [OF w2 b]
    by (rule terminate_noop)
  have "sent w2 @ map dequeued (msgQueue w2) =
          sent w @ map dequeued (msgQueue w) @ [close_envelope ww]"
    and "timeouts w2 = timeouts w @ [(nextTimeoutID w, effective_timeout t)]"
    and "killTimeoutID w2 = Some (nextTimeoutID w)"
    using w2 a(4) b unfolding terminate_proceeds [OF a]
    by (auto simp: queue_excludes_channel_def dequeued_def pop_def close_envelope_def
        split: if_splits)
  then show "\<exists>w2. run ww [Terminate t, Terminate t'] w = Inr w2
           \<and> run ww [Terminate t] w = Inr w2
           \<and> sent w2 @ map dequeued (msgQueue w2) =
               sent w @ map dequeued (msgQueue w) @ [close_envelope ww]
           \<and> timeouts w2 = timeouts w @ [(nextTimeoutID w, effective_timeout t)]
           \<and> killTimeoutID w2 = Some (nextTimeoutID w)"
    using w2 again by simp
qed

theorem terminate_noop_while_timer_pending_witness:
  "terminate_asserts connected_worker \<and> child_running connected_worker
   \<and> killTimeoutID connected_worker = None \<and> queue_excludes_channel connected_worker
   \<and> 0 < effective_timeout (Some 100)
   \<and> (\<exists>w2. run sample_wwutil [Terminate (Some 100), Terminate None] connected_worker = Inr w2
         \<and> sent w2 = [close_envelope sample_wwutil] \<and> timeouts w2 = [(0, 100)]
         \<and> killTimeoutID w2 = Some 0
         \<and> terminate sample_wwutil (Some 7) w2 = Inr w2)"
proof -
  have a: "terminate_asserts connected_worker" "child_running connected_worker"
    "killTimeoutID connected_worker = None" "queue_excludes_channel connected_worker"
    by (simp_all add: connected_worker_eq new_worker_fields terminate_asserts_def
        child_running_def queue_excludes_channel_def falsy_pid_def)
  have b: "0 < effective_timeout (Some 100)"
    by (simp add: effective_timeout_def)
  have c: "sent connected_worker = []" "msgQueue connected_worker = []"
    "timeouts connected_worker = []" "nextTimeoutID connected_worker = 0"
    by (simp_all add: connected_worker_eq new_worker_fields)
  from terminate_noop_while_timer_pending
    [of connected_worker sample_wwutil "Some 100" _ None] a b
  obtain w2 where w2:
    "run sample_wwutil [Terminate (Some 100), Terminate None] connected_worker = Inr w2"
    "run sample_wwutil [Terminate (Some 100)] connected_worker = Inr w2"
    "sent w2 @ map dequeued (msgQueue w2) =
       sent connected_worker @ map dequeued (msgQueue connected_worker)
         @ [close_envelope sample_wwutil]"
    "timeouts w2 = timeouts connected_worker
       @ [(nextTimeoutID connected_worker, effective_timeout (Some 100))]"
    "killTimeoutID w2 = Some (nextTimeoutID connected_worker)"
    by blast
  have t: "terminate sample_wwutil (Some 100) connected_worker = Inr w2"
    using w2(2) by (simp split: sum.splits)
  have q: "msgQueue w2 = []"
    using t by (auto simp: terminate_def Let_def postMessageImpl_def send_def setTimeout_def
        connected_worker_eq new_worker_fields split: if_splits)
  have again: "terminate sample_wwutil (Some 7) w2 = Inr w2"
    using terminate_noop_while_timer_pending
      [of connected_worker sample_wwutil "Some 100" w2 "Some 7"] t b by blast
  show ?thesis
    using a b c w2 q again by (auto simp: effective_timeout_def)
qed

text \<open>
  Claim C4. A further terminate call is to be a no-op once a termination is in progress,
  also when the timer has already fired: one CLOSE envelope and one timer in total. The
  guard of terminate (``The termination process has already been initiated for this
  process'') tests \<open>killTimeoutID\<close>, and the timer callback clears that variable before
  it sends SIGTERM, so the guard misses the calls made after the timer has fired and before
  the exit of the child is reported. With the child connected, terminate(100) sends CLOSE
  and arms timer 0; the timer fires and sends SIGTERM: one CLOSE sent, no timer pending.
  A second terminate(100) then sends a second CLOSE and arms timer 1.
\<close>

theorem terminate_again_after_timer_fired:
  "observe (run sample_wwutil
      [Start, Listening 4712, Connection 1, Terminate (Some 100), Timeout 0] new_worker)
     = Inr ([close_envelope sample_wwutil], [], [SIGTERM])
   \<and> observe (run sample_wwutil
      [Start, Listening 4712, Connection 1, Terminate (Some 100), Timeout 0,
       Terminate (Some 100)] new_worker)
     = Inr ([close_envelope sample_wwutil, close_envelope sample_wwutil], [(1, 100)],
            [SIGTERM])"
  by (simp add: observe_def new_worker_def WorkerImpl_def sample_wwutil_def start_def
      listening_def debug_def connection_def terminate_def postMessageImpl_def send_def
      setTimeout_def clearTimeout_def kill_callback_def falsy_pid_def close_envelope_def
      Let_def)

section \<open>The timeout of terminate\<close>

lemma never_armed_step:
  "never_armed w \<Longrightarrow> zero_timeout a \<Longrightarrow> enabled a w \<Longrightarrow> step ww a w = Inr w' \<Longrightarrow>
   never_armed w'"
  by (cases a)
     (auto simp: never_armed_def start_def listening_def debug_def connection_def flush_eq
        handleMessage_def nextTick_def Let_def postMessage_def postMessageImpl_def send_def
        terminate_def cp_exit_def process_exited_def tick_def clearTimeout_def
        split: if_splits sum.splits option.splits)

lemma never_armed_run:
  "never_armed w \<Longrightarrow> list_all zero_timeout as \<Longrightarrow> run ww as w = Inr w' \<Longrightarrow>
   never_armed w'"
proof (induction as arbitrary: w)
  case Nil
  then show ?case by simp
next
  case (Cons a as)
  from Cons.prems(3) obtain w1 where e: "enabled a w" and s: "step ww a w = Inr w1"
    and r: "run ww as w1 = Inr w'"
    by (auto split: if_splits sum.splits)
  from Cons.prems(2) have z: "zero_timeout a" and zs: "list_all zero_timeout as"
    by simp_all
  from Cons.prems(1) z e s have "never_armed w1"
    by (rule never_armed_step)
  then show ?case using zs r by (rule Cons.IH)
qed

lemma terminate_default: "terminate ww None w = terminate ww (Some 5000) w"
  by (simp add: terminate_def Let_def split: option.splits)

lemma terminate_zero:
  "terminate ww (Some 0) w = Inr w' \<Longrightarrow>
   timeouts w' = timeouts w \<and> nextTimeoutID w' = nextTimeoutID w
   \<and> killTimeoutID w' = killTimeoutID w \<and> killed w' = killed w"
  by (auto simp: terminate_def Let_def postMessageImpl_def send_def
      split: if_splits option.splits)

lemma timer_fires_running:
  "child_running w \<Longrightarrow>
   step ww (Timeout k) w =
     Inr ((debug 1 (ForciblyTerminating (pid w)) (clearTimeout k w\<lparr>killTimeoutID := None\<rparr>))
            \<lparr>killed := killed w @ [SIGTERM]\<rparr>)"
  by (auto simp: child_running_def kill_callback_def Let_def clearTimeout_def
      split: option.splits)

lemma timer_fires_exited:
  "cp w = Some c \<Longrightarrow> \<not> child_running w \<Longrightarrow>
   step ww (Timeout k) w = Inr (clearTimeout k w\<lparr>killTimeoutID := None\<rparr>)"
  by (auto simp: child_running_def kill_callback_def Let_def clearTimeout_def
      split: option.splits)

text \<open>
  Claim C5. An omitted timeout is the timeout 5000. A call terminate(0) arms no timer and
  sends no signal, and in a run whose terminate calls all have the timeout 0 no timer is
  ever armed (no timer id is ever allocated) and no signal is ever sent, whatever else
  happens and however late the child exits. A call with a positive timeout \<open>d\<close>, on a
  running child with no timer pending, arms one timer with the delay \<open>d\<close>; when a timer
  fires while the child is still running, SIGTERM is sent to it.
\<close>

theorem terminate_timeout_parameter:
  "terminate ww None w = terminate ww (Some 5000) w
   \<and> (terminate ww (Some 0) w = Inr w' \<longrightarrow>
        timeouts w' = timeouts w \<and> nextTimeoutID w' = nextTimeoutID w
        \<and> killTimeoutID w' = killTimeoutID w \<and> killed w' = killed w)
   \<and> (list_all zero_timeout as \<longrightarrow> run ww as (fst (WorkerImpl s g)) = Inr w' \<longrightarrow>
        timeouts w' = [] \<and> nextTimeoutID w' = 0 \<and> killTimeoutID w' = None \<and> killed w' = [])
   \<and> (terminate_asserts w \<longrightarrow> child_running w \<longrightarrow> killTimeoutID w = None \<longrightarrow>
      queue_excludes_channel w \<longrightarrow> 0 < d \<longrightarrow>
        (\<exists>w1 w2. terminate ww (Some d) w = Inr w1
           \<and> timeouts w1 = timeouts w @ [(nextTimeoutID w, d)]
           \<and> killTimeoutID w1 = Some (nextTimeoutID w)
           \<and> enabled (Timeout (nextTimeoutID w)) w1
           \<and> step ww (Timeout (nextTimeoutID w)) w1 = Inr w2
           \<and> killed w2 = killed w @ [SIGTERM]))
   \<and> (child_running w \<longrightarrow>
        (\<exists>w2. step ww (Timeout k) w = Inr w2 \<and> killed w2 = killed w @ [SIGTERM]))"
proof (intro conjI impI)
  show "terminate ww None w = terminate ww (Some 5000) w"
    by (rule terminate_default)
next
  assume "terminate ww (Some 0) w = Inr w'"
  from terminate_zero [OF this]
  show "timeouts w' = timeouts w" and "nextTimeoutID w' = nextTimeoutID w"
    and "killTimeoutID w' = killTimeoutID w" and "killed w' = killed w"
    by simp_all
next
  assume z: "list_all zero_timeout as" and r: "run ww as (fst (WorkerImpl s g)) = Inr w'"
  have "never_armed (fst (WorkerImpl s g))"
    by (simp add: never_armed_def WorkerImpl_def)
  then have "never_armed w'" using z r by (rule never_armed_run)
  then show "timeouts w' = []" and "nextTimeoutID w' = 0" and "killTimeoutID w' = None"
    and "killed w' = []"
    by (simp_all add: never_armed_def)
next
  assume a: "terminate_asserts w" "child_running w" "killTimeoutID w = None"
    "queue_excludes_channel w" and d: "0 < d"
  obtain w1 where w1: "terminate ww (Some d) w = Inr w1"
    using terminate_proceeds [OF a] by blast
  have f: "timeouts w1 = timeouts w @ [(nextTimeoutID w, d)]"
    "killTimeoutID w1 = Some (nextTimeoutID w)" "cp w1 = cp w" "killed w1 = killed w"
    using w1 d unfolding terminate_proceeds [OF a]
    by (auto simp: effective_timeout_def split: if_splits)
  have run1: "child_running w1"
    using a(2) f(3) by (simp add: child_running_def)
  have "enabled (Timeout (nextTimeoutID w)) w1"
    using f(1) by simp
  moreover have "killed (((debug 1 (ForciblyTerminating (pid w1))
        (clearTimeout (nextTimeoutID w) w1\<lparr>killTimeoutID := None\<rparr>))
          \<lparr>killed := killed w1 @ [SIGTERM]\<rparr>)) = killed w @ [SIGTERM]"
    using f(4) by simp
  ultimately show "\<exists>w1 w2. terminate ww (Some d) w = Inr w1
           \<and> timeouts w1 = timeouts w @ [(nextTimeoutID w, d)]
           \<and> killTimeoutID w1 = Some (nextTimeoutID w)
           \<and> enabled (Timeout (nextTimeoutID w)) w1
           \<and> step ww (Timeout (nextTimeoutID w)) w1 = Inr w2
           \<and> killed w2 = killed w @ [SIGTERM]"
    using w1 f(1,2) timer_fires_running [OF run1, of ww "nextTimeoutID w"] by blast
next
  assume "child_running w"
  from timer_fires_running [OF this, of ww k]
  show "\<exists>w2. step ww (Timeout k) w = Inr w2 \<and> killed w2 = killed w @ [SIGTERM]"
    by simp
qed

theorem terminate_timeout_parameter_witness:
  "list_all zero_timeout
     [Start, Listening 4712, Terminate (Some 0), Connection 1, Terminate (Some 0), Tick]
   \<and> (\<exists>w'. run sample_wwutil
         [Start, Listening 4712, Terminate (Some 0), Connection 1, Terminate (Some 0), Tick]
         new_worker = Inr w'
        \<and> sent w' = [close_envelope sample_wwutil, close_envelope sample_wwutil]
        \<and> timeouts w' = [] \<and> nextTimeoutID w' = 0 \<and> killed w' = [])
   \<and> terminate_asserts connected_worker \<and> child_running connected_worker
   \<and> killTimeoutID connected_worker = None \<and> queue_excludes_channel connected_worker
   \<and> (\<exists>w1 w2. terminate sample_wwutil (Some 200) connected_worker = Inr w1
         \<and> timeouts w1 = [(0, 200)]
         \<and> step sample_wwutil (Timeout 0) w1 = Inr w2 \<and> killed w2 = [SIGTERM])
   \<and> (\<exists>w1. terminate sample_wwutil None connected_worker = Inr w1
         \<and> timeouts w1 = [(0, 5000)])"
proof -
  define tr where "tr =
    [Start, Listening 4712, Terminate (Some 0), Connection 1, Terminate (Some 0), Tick]"
  have z: "list_all zero_timeout tr"
    by (simp add: tr_def)
  obtain w' where r: "run sample_wwutil tr new_worker = Inr w'"
    and s: "sent w' = [close_envelope sample_wwutil, close_envelope sample_wwutil]"
    by (simp add: tr_def new_worker_def WorkerImpl_def sample_wwutil_def start_def
        listening_def debug_def connection_def terminate_def postMessageImpl_def send_def
        falsy_pid_def close_envelope_def pop_def tick_def Let_def)
  have zero: "timeouts w' = [] \<and> nextTimeoutID w' = 0 \<and> killed w' = []"
    using terminate_timeout_parameter
      [of sample_wwutil _ _ tr "''worker.js''" sample_master] z r
    by (simp add: new_worker_def)
  have a: "terminate_asserts connected_worker" "child_running connected_worker"
    "killTimeoutID connected_worker = None" "queue_excludes_channel connected_worker"
    by (simp_all add: connected_worker_eq new_worker_fields terminate_asserts_def
        child_running_def queue_excludes_channel_def falsy_pid_def)
  have c: "timeouts connected_worker = []" "nextTimeoutID connected_worker = 0"
    "killed connected_worker = []"
    by (simp_all add: connected_worker_eq new_worker_fields)
  have pos: "\<exists>w1 w2. terminate sample_wwutil (Some 200) connected_worker = Inr w1
         \<and> timeouts w1 = [(0, 200)]
         \<and> step sample_wwutil (Timeout 0) w1 = Inr w2 \<and> killed w2 = [SIGTERM]"
    using terminate_timeout_parameter [of sample_wwutil connected_worker _ _ _ _ 200] a c
    by (simp del: step.simps) blast
  have "\<exists>w1 w2. terminate sample_wwutil (Some 5000) connected_worker = Inr w1
         \<and> timeouts w1 = [(0, 5000)]
         \<and> step sample_wwutil (Timeout 0) w1 = Inr w2 \<and> killed w2 = [SIGTERM]"
    using terminate_timeout_parameter [of sample_wwutil connected_worker _ _ _ _ 5000] a c
    by (simp del: step.simps) blast
  then have dflt: "\<exists>w1. terminate sample_wwutil None connected_worker = Inr w1
         \<and> timeouts w1 = [(0, 5000)]"
    using terminate_timeout_parameter [of sample_wwutil connected_worker] by auto
  show ?thesis
    using z r s zero a pos dflt unfolding tr_def by blast
qed

section \<open>The child exits before the deadline\<close>

lemma handleMessage_exit_events:
  "handleMessage ww m fd w = Inr w' \<Longrightarrow>
   exit_events w' = exit_events w \<and> cp w' = cp w \<and> srv w' = srv w \<and> killed w' = killed w
   \<and> timeouts w' = timeouts w"
  unfolding handleMessage_def Let_def
  by (auto simp: exit_events_def debug_def nextTick_def split: if_splits sum.splits)

lemma postMessage_exit_events:
  "postMessage ww m fd w = Inr w' \<Longrightarrow>
   exit_events w' = exit_events w \<and> cp w' = cp w \<and> srv w' = srv w \<and> killed w' = killed w
   \<and> timeouts w' = timeouts w"
  by (auto simp: postMessage_def postMessageImpl_def send_def exit_events_def split: if_splits)

lemma connection_exit_events:
  "connection c w = Inr w' \<Longrightarrow>
   exit_events w' = exit_events w \<and> cp w' = cp w \<and> srv w' = srv w \<and> killed w' = killed w
   \<and> timeouts w' = timeouts w"
  by (auto simp: connection_def flush_eq exit_events_def split: if_splits)

lemma terminate_exit_events:
  "terminate ww t w = Inr w' \<Longrightarrow>
   exit_events w' = exit_events w \<and> cp w' = cp w \<and> srv w' = srv w \<and> killed w' = killed w"
  by (auto simp: terminate_def Let_def postMessageImpl_def send_def setTimeout_def
      exit_events_def split: if_splits option.splits)

lemma kill_callback_exit_events:
  "kill_callback w = Inr w' \<Longrightarrow>
   exit_events w' = exit_events w \<and> cp w' = cp w \<and> srv w' = srv w"
  by (auto simp: kill_callback_def Let_def debug_def exit_events_def
      split: if_splits option.splits)

lemma exit_events_or_exited_step:
  assumes "exit_events w = [] \<or> exited w" and "enabled a w" and "step ww a w = Inr w'"
  shows "exit_events w' = [] \<or> exited w'"
proof (cases a)
  case Start
  with assms show ?thesis by (auto simp: start_def exit_events_def exited_def)
next
  case (Listening p)
  with assms show ?thesis by (auto simp: listening_def debug_def exit_events_def exited_def)
next
  case (Connection c)
  with assms connection_exit_events [of c w w'] show ?thesis by (auto simp: exited_def)
next
  case (Msg m fd)
  with assms handleMessage_exit_events [of ww m fd w w'] show ?thesis by (auto simp: exited_def)
next
  case (PostMessage m fd)
  with assms postMessage_exit_events [of ww m fd w w'] show ?thesis by (auto simp: exited_def)
next
  case (Terminate t)
  with assms terminate_exit_events [of ww t w w'] show ?thesis by (auto simp: exited_def)
next
  case (Timeout t)
  with assms kill_callback_exit_events [of "clearTimeout t w" w'] show ?thesis
    by (auto simp: exited_def clearTimeout_def exit_events_def)
next
  case (Exit code sig)
  with assms show ?thesis
    by (auto simp: cp_exit_def process_exited_def Let_def debug_def clearTimeout_def nextTick_def exited_def
        split: option.splits)
next
  case Tick
  with assms show ?thesis by (auto simp: tick_def exit_events_def exited_def)
qed

lemma exited_step:
  assumes "exited w" and "enabled a w" and "step ww a w = Inr w'"
  shows "exited w' \<and> killed w' = killed w \<and> exit_events w' = exit_events w
         \<and> set (timeouts w') \<subseteq> set (timeouts w)"
proof (cases a)
  case Start
  with assms show ?thesis by (auto simp: exited_def)
next
  case (Listening p)
  with assms show ?thesis by (auto simp: exited_def)
next
  case (Connection c)
  with assms show ?thesis by (auto simp: exited_def)
next
  case (Msg m fd)
  with assms handleMessage_exit_events [of ww m fd w w'] show ?thesis by (auto simp: exited_def)
next
  case (PostMessage m fd)
  with assms postMessage_exit_events [of ww m fd w w'] show ?thesis by (auto simp: exited_def)
next
  case (Terminate t)
  with assms show ?thesis
    by (auto simp: exited_def terminate_def Let_def falsy_pid_def split: if_splits)
next
  case (Timeout t)
  with assms show ?thesis
    by (auto simp: exited_def kill_callback_def Let_def falsy_pid_def clearTimeout_def
        exit_events_def)
next
  case (Exit code sig)
  with assms show ?thesis by (auto simp: exited_def)
next
  case Tick
  with assms show ?thesis by (auto simp: tick_def exit_events_def exited_def)
qed

lemma exit_events_or_exited_run:
  "exit_events w = [] \<or> exited w \<Longrightarrow> run ww as w = Inr w' \<Longrightarrow>
   exit_events w' = [] \<or> exited w'"
proof (induction as arbitrary: w)
  case Nil
  then show ?case by simp
next
  case (Cons a as)
  from Cons.prems(2) obtain w1 where e: "enabled a w" and s: "step ww a w = Inr w1"
    and r: "run ww as w1 = Inr w'"
    by (auto split: if_splits sum.splits)
  from Cons.prems(1) e s have "exit_events w1 = [] \<or> exited w1"
    by (rule exit_events_or_exited_step)
  then show ?case using r by (rule Cons.IH)
qed

lemma exited_run:
  "exited w \<Longrightarrow> run ww as w = Inr w' \<Longrightarrow>
   exited w' \<and> killed w' = killed w \<and> exit_events w' = exit_events w
   \<and> set (timeouts w') \<subseteq> set (timeouts w)"
proof (induction as arbitrary: w)
  case Nil
  then show ?case by simp
next
  case (Cons a as)
  from Cons.prems(2) obtain w1 where e: "enabled a w" and s: "step ww a w = Inr w1"
    and r: "run ww as w1 = Inr w'"
    by (auto split: if_splits sum.splits)
  from exited_step [OF Cons.prems(1) e s]
  have 1: "exited w1" "killed w1 = killed w" "exit_events w1 = exit_events w"
    "set (timeouts w1) \<subseteq> set (timeouts w)"
    by simp_all
  from Cons.IH [OF 1(1) r] 1 show ?case by auto
qed

lemma cp_exit_effect:
  assumes "enabled (Exit code sig) w"
  shows "exited (cp_exit code sig (process_exited w))"
    and "killed (cp_exit code sig (process_exited w)) = killed w"
    and "exit_events (cp_exit code sig (process_exited w)) =
           exit_events w @ [ExitEvent code sig]"
    and "killTimeoutID w = Some t \<Longrightarrow>
           t \<notin> fst ` set (timeouts (cp_exit code sig (process_exited w)))"
    and "set (timeouts (cp_exit code sig (process_exited w))) \<subseteq> set (timeouts w)"
  using assms
  by (auto simp: cp_exit_def process_exited_def Let_def debug_def clearTimeout_def
      nextTick_def exited_def exit_events_def split: option.splits)

text \<open>
  Claim C6. Take any state a controller reaches, and let the exit of the child process be
  reported there. Then, whatever happens afterwards, the signals sent stay what they were
  at that moment (none, if none had been sent: the timer callback never sends SIGTERM
  later), the timer that \<open>killTimeoutID\<close> named is no longer pending, and there is
  exactly one exit event, queued by the exit listener and emitted on the next tick.
\<close>

theorem exit_before_deadline_cancels_kill:
  "run ww as (fst (WorkerImpl s g)) = Inr w1 \<longrightarrow>
   run ww (Exit code sig # bs) w1 = Inr w \<longrightarrow>
     killed w = killed w1
     \<and> (killed w1 = [] \<longrightarrow> killed w = [])
     \<and> (killTimeoutID w1 = Some t \<longrightarrow> t \<notin> fst ` set (timeouts w))
     \<and> exit_events w = [ExitEvent code sig]
     \<and> filter is_exit (emitted (tick w)) = [ExitEvent code sig]"
proof (intro impI)
  assume r1: "run ww as (fst (WorkerImpl s g)) = Inr w1"
    and r2: "run ww (Exit code sig # bs) w1 = Inr w"
  from r2 have e: "enabled (Exit code sig) w1"
    and r3: "run ww bs (cp_exit code sig (process_exited w1)) = Inr w"
    by (auto split: if_splits)
  have "exit_events (fst (WorkerImpl s g)) = [] \<or> exited (fst (WorkerImpl s g))"
    by (simp add: exit_events_def WorkerImpl_def)
  from exit_events_or_exited_run [OF this r1] e have none: "exit_events w1 = []"
    by (auto simp: exited_def)
  note x = cp_exit_effect [OF e]
  from exited_run [OF x(1) r3]
  have k: "killed w = killed (cp_exit code sig (process_exited w1))"
    and ev: "exit_events w = exit_events (cp_exit code sig (process_exited w1))"
    and ts: "set (timeouts w) \<subseteq> set (timeouts (cp_exit code sig (process_exited w1)))"
    by simp_all
  have 1: "killed w = killed w1" using k x(2) by simp
  have 2: "killTimeoutID w1 = Some t \<longrightarrow> t \<notin> fst ` set (timeouts w)"
    using x(4) ts by blast
  have 3: "exit_events w = [ExitEvent code sig]"
    using ev x(3) none by simp
  then have 4: "filter is_exit (emitted (tick w)) = [ExitEvent code sig]"
    by (simp add: exit_events_def tick_def)
  from 1 2 3 4 show "killed w = killed w1
     \<and> (killed w1 = [] \<longrightarrow> killed w = [])
     \<and> (killTimeoutID w1 = Some t \<longrightarrow> t \<notin> fst ` set (timeouts w))
     \<and> exit_events w = [ExitEvent code sig]
     \<and> filter is_exit (emitted (tick w)) = [ExitEvent code sig]"
    by simp
qed

theorem exit_before_deadline_cancels_kill_witness:
  "(\<exists>w1 w. run sample_wwutil [Start, Listening 4712, Connection 1, Terminate (Some 200)]
        new_worker = Inr w1
      \<and> killed w1 = [] \<and> killTimeoutID w1 = Some 0 \<and> timeouts w1 = [(0, 200)]
      \<and> run sample_wwutil [Exit (JNum 0) JNull, Terminate None, Tick] w1 = Inr w
      \<and> killed w = [] \<and> timeouts w = [] \<and> emitted w = [ExitEvent (JNum 0) JNull]
      \<and> exit_events w = [ExitEvent (JNum 0) JNull])"
proof -
  define tr where "tr = [Start, Listening 4712, Connection 1, Terminate (Some 200)]"
  obtain w1 where r1: "run sample_wwutil tr new_worker = Inr w1"
    and f1: "killed w1 = []" "killTimeoutID w1 = Some 0" "timeouts w1 = [(0, 200)]"
      "cp w1 = Some (ChildProcess (Some 4712))" "pid w1 = Some 4712" "stream w1 = Some 1"
      "emitted w1 = []" "nextTicks w1 = []"
    by (simp add: tr_def new_worker_def WorkerImpl_def sample_wwutil_def start_def
        listening_def debug_def connection_def terminate_def postMessageImpl_def send_def
        setTimeout_def falsy_pid_def Let_def)
  obtain w where r2: "run sample_wwutil [Exit (JNum 0) JNull, Terminate None, Tick] w1 = Inr w"
    and f2: "timeouts w = []" "emitted w = [ExitEvent (JNum 0) JNull]"
    using f1
    by (simp add: cp_exit_def process_exited_def debug_def clearTimeout_def nextTick_def terminate_def
        falsy_pid_def tick_def Let_def)
  from r1 have r1': "run sample_wwutil tr (fst (WorkerImpl ''worker.js'' sample_master)) = Inr w1"
    by (simp add: new_worker_def)
  have "killed w = [] \<and> exit_events w = [ExitEvent (JNum 0) JNull]"
    using exit_before_deadline_cancels_kill
      [of sample_wwutil tr "''worker.js''" sample_master w1 "JNum 0" JNull
        "[Terminate None, Tick]" w 0] r1' r2 f1(1)
    by simp
  then show ?thesis
    using r1 f1(1-3) r2 f2 unfolding tr_def by blast
qed

section \<open>At most one connection\<close>

lemma handleMessage_channel:
  "handleMessage ww m fd w = Inr w' \<Longrightarrow> stream w' = stream w \<and> msgStream w' = msgStream w"
  unfolding handleMessage_def Let_def
  by (auto simp: debug_def nextTick_def split: if_splits sum.splits)

lemma terminate_channel:
  "terminate ww t w = Inr w' \<Longrightarrow> stream w' = stream w \<and> msgStream w' = msgStream w"
  by (auto simp: terminate_def Let_def postMessageImpl_def send_def setTimeout_def
      split: if_splits option.splits)

lemma step_channel:
  assumes "step ww a w = Inr w'" and "\<not> is_connection a"
  shows "stream w' = stream w \<and> msgStream w' = msgStream w"
proof (cases a)
  case (Msg m fd)
  with assms handleMessage_channel [of ww m fd w w'] show ?thesis by simp
next
  case (Terminate t)
  with assms terminate_channel [of ww t w w'] show ?thesis by simp
next
  case (Exit code sig)
  with assms show ?thesis
    by (auto simp: cp_exit_def process_exited_def Let_def debug_def clearTimeout_def nextTick_def
        split: option.splits)
qed (use assms in \<open>auto simp: start_def listening_def debug_def postMessage_def
      postMessageImpl_def send_def kill_callback_def Let_def clearTimeout_def tick_def
      split: if_splits option.splits\<close>)

lemma second_connection_asserts:
  "stream w \<noteq> None \<or> msgStream w \<noteq> None \<Longrightarrow> connection c w = Inl AssertionError"
  by (auto simp: connection_def)

lemma first_connection_binds:
  "connection c w = Inr w' \<Longrightarrow> stream w' = Some c \<and> msgStream w' = Some c"
  by (auto simp: connection_def flush_eq split: if_splits)

lemma connected_run:
  "stream w = Some c \<Longrightarrow> msgStream w = Some c \<Longrightarrow> run ww as w = Inr w' \<Longrightarrow>
   stream w' = Some c \<and> msgStream w' = Some c \<and> filter is_connection as = []"
proof (induction as arbitrary: w)
  case Nil
  then show ?case by simp
next
  case (Cons a as)
  from Cons.prems(3) obtain w1 where s: "step ww a w = Inr w1" and r: "run ww as w1 = Inr w'"
    by (auto split: if_splits sum.splits)
  have n: "\<not> is_connection a"
  proof
    assume "is_connection a"
    then obtain c' where "a = Connection c'" by (cases a) simp_all
    with s Cons.prems(1) show False by (simp add: second_connection_asserts)
  qed
  from step_channel [OF s n] Cons.prems(1,2)
  have "stream w1 = Some c" "msgStream w1 = Some c" by simp_all
  from Cons.IH [OF this r] n show ?case by simp
qed

lemma at_most_one_connection:
  "run ww as w = Inr w' \<Longrightarrow> length (filter is_connection as) \<le> 1"
proof (induction as arbitrary: w)
  case Nil
  then show ?case by simp
next
  case (Cons a as)
  from Cons.prems obtain w1 where s: "step ww a w = Inr w1" and r: "run ww as w1 = Inr w'"
    by (auto split: if_splits sum.splits)
  show ?case
  proof (cases "is_connection a")
    case True
    then obtain c where "a = Connection c" by (cases a) simp_all
    with s have "stream w1 = Some c" "msgStream w1 = Some c"
      using first_connection_binds [of c w w1] by simp_all
    from connected_run [OF this r] True show ?thesis by simp
  next
    case False
    with Cons.IH [OF r] show ?thesis by simp
  qed
qed

text \<open>
  Claim C8. The connection callback throws an assertion error when the stream or the
  channel is already set, and changes nothing. A run of a controller therefore contains at
  most one accepted connection; after it, the stream and the channel stay the ones that
  connection bound, and a further connection is refused by the assertion.
\<close>

theorem at_most_one_connection_accepted:
  "(stream w \<noteq> None \<or> msgStream w \<noteq> None \<longrightarrow> connection c w = Inl AssertionError)
   \<and> (run ww as (fst (WorkerImpl s g)) = Inr w' \<longrightarrow> length (filter is_connection as) \<le> 1)
   \<and> (run ww (as @ [Connection c]) (fst (WorkerImpl s g)) = Inr w1 \<longrightarrow>
      run ww bs w1 = Inr w' \<longrightarrow>
        stream w' = Some c \<and> msgStream w' = Some c
        \<and> filter is_connection as = [] \<and> filter is_connection bs = []
        \<and> step ww (Connection c') w' = Inl AssertionError
        \<and> run ww (bs @ [Connection c']) w1 \<noteq> Inr w2)"
proof (intro conjI impI)
  assume "stream w \<noteq> None \<or> msgStream w \<noteq> None"
  then show "connection c w = Inl AssertionError" by (rule second_connection_asserts)
next
  assume "run ww as (fst (WorkerImpl s g)) = Inr w'"
  then show "length (filter is_connection as) \<le> 1" by (rule at_most_one_connection)
next
  assume r1: "run ww (as @ [Connection c]) (fst (WorkerImpl s g)) = Inr w1"
    and r2: "run ww bs w1 = Inr w'"
  from r1 obtain w0 where "run ww as (fst (WorkerImpl s g)) = Inr w0"
    and "run ww [Connection c] w0 = Inr w1"
    by (auto simp: run_append split: sum.splits)
  then have "connection c w0 = Inr w1"
    by (auto split: if_splits sum.splits)
  from first_connection_binds [OF this]
  have b: "stream w1 = Some c" "msgStream w1 = Some c" by simp_all
  from connected_run [OF b r2]
  show "stream w' = Some c" and "msgStream w' = Some c" and "filter is_connection bs = []"
    by simp_all
  then show "step ww (Connection c') w' = Inl AssertionError"
    by (simp add: second_connection_asserts)
  from at_most_one_connection [OF r1] show "filter is_connection as = []"
    by simp
  show "run ww (bs @ [Connection c']) w1 \<noteq> Inr w2"
  proof
    assume "run ww (bs @ [Connection c']) w1 = Inr w2"
    from connected_run [OF b this] show False by simp
  qed
qed

theorem at_most_one_connection_accepted_witness:
  "(\<exists>w1 w'. run sample_wwutil ([Start, Listening 4712] @ [Connection 1]) new_worker = Inr w1
       \<and> run sample_wwutil [PostMessage (JStr ''a'') JUndefined, Tick] w1 = Inr w'
       \<and> stream w' = Some 1 \<and> msgStream w' = Some 1
       \<and> connection 2 w' = Inl AssertionError
       \<and> run sample_wwutil [PostMessage (JStr ''a'') JUndefined, Tick, Connection 2] w1
           = Inl (Threw AssertionError))"
proof -
  obtain w1 where r1: "run sample_wwutil ([Start, Listening 4712] @ [Connection 1]) new_worker
      = Inr w1" and f: "msgStream w1 = Some 1" "msgQueue w1 = []" "srv w1 = SrvListening"
    by (simp add: new_worker_def WorkerImpl_def start_def listening_def debug_def
        connection_def)
  obtain w' where r2: "run sample_wwutil [PostMessage (JStr ''a'') JUndefined, Tick] w1 = Inr w'"
    and g: "srv w' = SrvListening"
    using f by (simp add: postMessage_def postMessageImpl_def send_def tick_def)
  from r1 have r1': "run sample_wwutil ([Start, Listening 4712] @ [Connection 1])
      (fst (WorkerImpl ''worker.js'' sample_master)) = Inr w1"
    by (simp add: new_worker_def)
  have c: "stream w' = Some 1 \<and> msgStream w' = Some 1
      \<and> step sample_wwutil (Connection 2) w' = Inl AssertionError"
    using at_most_one_connection_accepted
      [of _ 1 sample_wwutil "[Start, Listening 4712]" "''worker.js''" sample_master w' w1
        "[PostMessage (JStr ''a'') JUndefined, Tick]" 2] r1' r2
    by blast
  have "run sample_wwutil ([PostMessage (JStr ''a'') JUndefined, Tick] @ [Connection 2]) w1
      = Inl (Threw AssertionError)"
    using r2 c g by (simp only: run_append) simp
  then show ?thesis
    using r1 r2 c by auto
qed

section \<open>Socket paths\<close>














section \<open>terminate before the child is spawned\<close>

text \<open>
  Claim C10. While \<open>pid\<close> is undefined, terminate throws an assertion error instead of
  returning. That is the state of a controller from its construction until the listening
  callback has spawned the child: a call right after the constructor, or after start,
  throws, whatever the timeout.
\<close>

theorem terminate_before_spawn_asserts:
  "(pid w = None \<longrightarrow> terminate ww t w = Inl AssertionError)
   \<and> terminate ww t (fst (WorkerImpl s g)) = Inl AssertionError
   \<and> terminate ww t (start (fst (WorkerImpl s g))) = Inl AssertionError
   \<and> run ww [Start, Terminate t] (fst (WorkerImpl s g)) = Inl (Threw AssertionError)"
  by (simp add: terminate_def WorkerImpl_def start_def)

theorem terminate_before_spawn_asserts_witness:
  "pid new_worker = None
   \<and> terminate sample_wwutil (Some 0) new_worker = Inl AssertionError
   \<and> terminate sample_wwutil None (start new_worker) = Inl AssertionError
   \<and> run sample_wwutil [Start, Terminate (Some 100)] new_worker = Inl (Threw AssertionError)
   \<and> pid spawned_worker = Some 4712
   \<and> terminate sample_wwutil None spawned_worker \<noteq> Inl AssertionError"
proof -
  have a: "pid new_worker = None"
    by (simp add: new_worker_fields)
  have b: "terminate sample_wwutil (Some 0) new_worker = Inl AssertionError"
    using terminate_before_spawn_asserts [of new_worker sample_wwutil "Some 0"] a by blast
  have c: "terminate sample_wwutil None (start new_worker) = Inl AssertionError"
    "run sample_wwutil [Start, Terminate (Some 100)] new_worker = Inl (Threw AssertionError)"
    using terminate_before_spawn_asserts [of _ sample_wwutil None "''worker.js''" sample_master]
      terminate_before_spawn_asserts [of _ sample_wwutil "Some 100" "''worker.js''" sample_master]
    unfolding new_worker_def by blast+
  have d: "pid spawned_worker = Some 4712" "cp spawned_worker = Some (ChildProcess (Some 4712))"
    by (simp_all add: connected_worker_eq)
  have "terminate sample_wwutil None spawned_worker \<noteq> Inl AssertionError"
    by (simp add: connected_worker_eq new_worker_fields terminate_def postMessageImpl_def
        falsy_pid_def Let_def)
  with a b c d show ?thesis by simp
qed

section \<open>The child and the CLOSE message\<close>

text \<open>
  Claim C7 says that the child exits when it receives a CLOSE message. The listener of the
  child has cases for NOOP and USER only: a CLOSE message (any message whose type is
  neither of these) that passes the validity test is reported as unexpected, and the
  process does not exit. Nothing in the listener calls \<^verbatim>\<open>workerCtx.close\<close>.
\<close>

theorem child_ignores_close:
  "MSGTYPE_CLOSE ww \<noteq> MSGTYPE_NOOP ww \<longrightarrow> MSGTYPE_CLOSE ww \<noteq> MSGTYPE_USER ww \<longrightarrow>
   isValidMessage ww (JArr [JNum (MSGTYPE_CLOSE ww), d]) \<longrightarrow>
     child_msg ww (JArr [JNum (MSGTYPE_CLOSE ww), d]) fd c =
       Inr (c\<lparr>child_debug := child_debug c
                @ [ReceivedUnexpected (JArr [JNum (MSGTYPE_CLOSE ww), d])]\<rparr>)
     \<and> map_sum id exit_code (child_msg ww (JArr [JNum (MSGTYPE_CLOSE ww), d]) fd c) =
         Inr (exit_code c)"
  by (simp add: child_msg_def)

theorem child_ignores_close_witness:
  "MSGTYPE_CLOSE sample_wwutil \<noteq> MSGTYPE_NOOP sample_wwutil
   \<and> MSGTYPE_CLOSE sample_wwutil \<noteq> MSGTYPE_USER sample_wwutil
   \<and> isValidMessage sample_wwutil (JArr [JNum (MSGTYPE_CLOSE sample_wwutil), JUndefined])
   \<and> child_msg sample_wwutil (JArr [JNum 3, JUndefined]) JUndefined sample_child =
       Inr (sample_child\<lparr>child_debug := [ReceivedUnexpected (JArr [JNum 3, JUndefined])]\<rparr>)
   \<and> map_sum id exit_code
         (child_msg sample_wwutil (JArr [JNum 3, JUndefined]) JUndefined sample_child) = Inr None
   \<and> exit_code (close sample_child) = Some 0"
proof -
  have a: "MSGTYPE_CLOSE sample_wwutil \<noteq> MSGTYPE_NOOP sample_wwutil"
    "MSGTYPE_CLOSE sample_wwutil \<noteq> MSGTYPE_USER sample_wwutil"
    "isValidMessage sample_wwutil (JArr [JNum (MSGTYPE_CLOSE sample_wwutil), JUndefined])"
    "MSGTYPE_CLOSE sample_wwutil = 3"
    by (simp_all add: sample_wwutil_def)
  have "child_msg sample_wwutil (JArr [JNum (MSGTYPE_CLOSE sample_wwutil), JUndefined])
      JUndefined sample_child =
       Inr (sample_child\<lparr>child_debug := child_debug sample_child
          @ [ReceivedUnexpected (JArr [JNum (MSGTYPE_CLOSE sample_wwutil), JUndefined])]\<rparr>)"
    using child_ignores_close [of sample_wwutil JUndefined JUndefined sample_child] a(1-3)
    by blast
  then show ?thesis
    using a by (simp add: sample_child_def close_def)
qed

end
